theory Spec2Isabelle
  imports Main "HOL-Library.Word" "HOL-Library.Monad_Syntax" "HOL-Library.Multiset"
begin

unbundle bit_operations_syntax

section \<open>tilesettool: machine types, memory and loops\<close>

text \<open>
  The model follows \<^verbatim>\<open>src/tilesettool/src/tilesettool.c\<close>. C's \<^verbatim>\<open>uint8_t\<close>,
  \<^verbatim>\<open>uint16_t\<close> and \<^verbatim>\<open>uint32_t\<close> are words of that width, so every
  \<^verbatim>\<open>uint32_t\<close> product and sum wraps around as it does in C. A buffer is the list of
  its bytes and a pointer into it is an offset (a \<open>nat\<close>: pointer arithmetic is done at
  the width of an address, not at 32 bits). A function that can touch memory outside a
  buffer returns an \<open>option\<close>: \<open>None\<close> says that the C program has left defined
  behaviour (an access out of bounds), \<open>Some r\<close> that it returned \<open>r\<close>.
  A pointer that may be \<^verbatim>\<open>NULL\<close> is again an \<open>option\<close>, with \<open>None\<close> for \<^verbatim>\<open>NULL\<close>.
\<close>

type_synonym u8 = "8 word"
type_synonym u16 = "16 word"
type_synonym u32 = "32 word"
type_synonym u64 = "64 word"

text \<open>\<^verbatim>\<open>p[0]\<close> read at offset \<open>p\<close> of a buffer, and \<^verbatim>\<open>p[0] = v\<close>.\<close>

definition read_u8 :: "u8 list \<Rightarrow> nat \<Rightarrow> u8 option" where
  "read_u8 buf p = (if p < length buf then Some (buf ! p) else None)"

definition write_u8 :: "u8 list \<Rightarrow> nat \<Rightarrow> u8 \<Rightarrow> u8 list option" where
  "write_u8 buf p v = (if p < length buf then Some (buf[p := v]) else None)"

text \<open>
  \<^verbatim>\<open>malloc(n)\<close>: whether the request is granted is the environment's choice, a parameter
  \<open>malloc :: nat \<Rightarrow> bool\<close> of every function that allocates. The bytes of a fresh
  buffer are indeterminate in C; the model starts them at zero, and both functions below
  overwrite every one of them before returning.
\<close>

definition fresh :: "nat \<Rightarrow> u8 list" where
  "fresh n = replicate n 0"

definition malloc_succeeds :: "nat \<Rightarrow> bool" where
  "malloc_succeeds n = True"

definition malloc_fails :: "nat \<Rightarrow> bool" where
  "malloc_fails n = False"

text \<open>
  \<^verbatim>\<open>for (i = a; i < n; ++i) body\<close> with a \<^verbatim>\<open>uint32_t\<close> counter: the body maps the
  loop's state to the next one, or leaves defined behaviour.
\<close>

function for_u32 :: "u32 \<Rightarrow> u32 \<Rightarrow> (u32 \<Rightarrow> 's \<Rightarrow> 's option) \<Rightarrow> 's \<Rightarrow> 's option" where
  "for_u32 i n body s =
     (if i < n then (case body i s of None \<Rightarrow> None | Some s' \<Rightarrow> for_u32 (i + 1) n body s')
      else Some s)"
  by pat_completeness auto
termination
proof (relation "measure (\<lambda>(i, n, body, s). unat n - unat i)")
  show "wf (measure (\<lambda>(i, n, body, s). unat n - unat i))" by simp
next
  fix i n :: u32 and body :: "u32 \<Rightarrow> 's \<Rightarrow> 's option" and s s' :: 's
  assume less: "i < n"
  have "unat n < 2 ^ LENGTH(32)" by (rule unsigned_less)
  with less have "unat i + unat (1 :: u32) < 2 ^ LENGTH(32)"
    by (simp add: word_less_nat_alt)
  then have "unat (i + 1) = unat i + unat (1 :: u32)"
    by (simp only: unat_add_lem)
  with less show "((i + 1, n, body, s'), i, n, body, s) \<in> measure (\<lambda>(i, n, body, s). unat n - unat i)"
    by (simp add: word_less_nat_alt)
qed

declare for_u32.simps [simp del]

section \<open>The Depth Normalizer: \<^verbatim>\<open>image_to_4bpp\<close> (lines 138-163)\<close>

text \<open>
  \<^verbatim>\<open>((src[0] & 0x0F) << 4) | ((src[1] & 0x0F) << 0)\<close>, stored into a \<^verbatim>\<open>uint8_t\<close>.
  C computes the expression on \<^verbatim>\<open>int\<close> (the bytes are promoted) and the store keeps the
  low 8 bits.
\<close>

definition pack :: "u8 \<Rightarrow> u8 \<Rightarrow> u8" where
  "pack s0 s1 = word_of_int (push_bit 4 (uint s0 AND 0x0F) OR push_bit 0 (uint s1 AND 0x0F))"

text \<open>
  The loop's state is the output buffer and the two moving pointers \<^verbatim>\<open>dest\<close> and
  \<^verbatim>\<open>src\<close>, as offsets into \<^verbatim>\<open>image_4bpp\<close> and \<^verbatim>\<open>image\<close>. The parameters
  \<^verbatim>\<open>image\<close> and \<^verbatim>\<open>size\<close> are \<open>img\<close> and \<open>sz\<close> here (both names are taken in HOL).
\<close>

definition image_to_4bpp :: "(nat \<Rightarrow> bool) \<Rightarrow> u8 list \<Rightarrow> u32 \<Rightarrow> u8 list option option" where
  "image_to_4bpp malloc img sz =
     (if \<not> malloc (unat (sz div 2)) then Some None
      else do {
        (image_4bpp, dest, src) \<leftarrow>
          for_u32 0 (sz div 2)
            (\<lambda>i (image_4bpp, dest, src). do {
                s0 \<leftarrow> read_u8 img src;
                s1 \<leftarrow> read_u8 img (src + 1);
                image_4bpp \<leftarrow> write_u8 image_4bpp dest (pack s0 s1);
                Some (image_4bpp, dest + 1, src + 2)
              })
            (fresh (unat (sz div 2)), 0, 0);
        Some (Some image_4bpp)
      })"

section \<open>The Tile Extractor: \<^verbatim>\<open>image_4bpp_to_tile\<close> (lines 173-226)\<close>

text \<open>
  One pass of the innermost loop copies the four bytes of a tile row and moves both
  pointers. The state is the tiles buffer with \<^verbatim>\<open>tiles_p\<close> and \<^verbatim>\<open>image_p\<close>.
\<close>

definition copy_tile_row ::
  "u8 list \<Rightarrow> u32 \<Rightarrow> u8 list \<times> nat \<times> nat \<Rightarrow> (u8 list \<times> nat \<times> nat) option" where
  "copy_tile_row img pitch = (\<lambda>(tiles, tiles_p, image_p). do {
      b0 \<leftarrow> read_u8 img image_p;
      tiles \<leftarrow> write_u8 tiles tiles_p b0;
      b1 \<leftarrow> read_u8 img (image_p + 1);
      tiles \<leftarrow> write_u8 tiles (tiles_p + 1) b1;
      b2 \<leftarrow> read_u8 img (image_p + 2);
      tiles \<leftarrow> write_u8 tiles (tiles_p + 2) b2;
      b3 \<leftarrow> read_u8 img (image_p + 3);
      tiles \<leftarrow> write_u8 tiles (tiles_p + 3) b3;
      Some (tiles, tiles_p + 4, image_p + unat pitch)
    })"

text \<open>The body of the loop over \<^verbatim>\<open>tile_x\<close>: one tile, eight rows.\<close>

definition copy_tile ::
  "u8 list \<Rightarrow> u32 \<Rightarrow> u32 \<Rightarrow> u32 \<Rightarrow> u8 list \<times> nat \<Rightarrow> (u8 list \<times> nat) option" where
  "copy_tile img pitch tile_y tile_x = (\<lambda>(tiles, tiles_p). do {
      (tiles, tiles_p, image_p) \<leftarrow>
        for_u32 0 8 (\<lambda>tile_row. copy_tile_row img pitch)
          (tiles, tiles_p, unat (((tile_y * 8) * pitch) + (tile_x * 4)));
      Some (tiles, tiles_p)
    })"

definition image_4bpp_to_tile ::
  "(nat \<Rightarrow> bool) \<Rightarrow> u8 list \<Rightarrow> u32 \<Rightarrow> u32 \<Rightarrow> u8 list option option" where
  "image_4bpp_to_tile malloc img width height =
     (let tile_width = width div 8;
          tile_height = height div 8;
          pitch = tile_width * 4
      in if \<not> malloc (unat (tile_width * tile_height * 32)) then Some None
         else do {
           (tiles, tiles_p) \<leftarrow>
             for_u32 0 tile_height
               (\<lambda>tile_y. for_u32 0 tile_width (\<lambda>tile_x. copy_tile img pitch tile_y tile_x))
               (fresh (unat (tile_width * tile_height * 32)), 0);
           Some (Some tiles)
         })"

section \<open>Strings and the catalog\<close>

text \<open>
  A C string is the list of its characters before the terminating \<^verbatim>\<open>'\0'\<close>. Copying one
  into a \<^verbatim>\<open>char\<close> array of \<open>n\<close> bytes stays inside the array only when the string and
  its terminator fit; otherwise the C library's \<^verbatim>\<open>strcpy\<close> and \<^verbatim>\<open>strcat\<close> write past
  the array and the model answers \<open>None\<close>. The first argument of the two functions
  below is the size of the destination array.
\<close>

definition MAX_TILESETS :: u32 where
  "MAX_TILESETS = 512"

definition MAX_FILE_NAME_LENGTH :: nat where
  "MAX_FILE_NAME_LENGTH = 128"

definition MAX_PATH_LENGTH :: nat where
  "MAX_PATH_LENGTH = 1024"

definition strcpy :: "nat \<Rightarrow> string \<Rightarrow> string option" where
  "strcpy n src = (if length src < n then Some src else None)"

definition strcat :: "nat \<Rightarrow> string \<Rightarrow> string \<Rightarrow> string option" where
  "strcat n dest src = (if length dest + length src < n then Some (dest @ src) else None)"

text \<open>\<^verbatim>\<open>strrchr(s, c)\<close>: the offset of the last \<open>c\<close> in \<open>s\<close>, \<open>None\<close> for \<^verbatim>\<open>NULL\<close>.\<close>

fun strrchr :: "string \<Rightarrow> char \<Rightarrow> nat option" where
  "strrchr [] c = None"
| "strrchr (x # xs) c =
     (case strrchr xs c of
        Some i \<Rightarrow> Some (Suc i)
      | None \<Rightarrow> if x = c then Some 0 else None)"

text \<open>\<^verbatim>\<open>tileset_t\<close> (lines 102-109) and the global array \<^verbatim>\<open>tilesets\<close>, zero at start.\<close>

record tileset_t =
  ts_file :: string
  ts_name :: string
  ts_size_define :: string
  ts_data :: "u8 list option"
  ts_size :: u16

definition tileset_zero :: tileset_t where
  "tileset_zero = \<lparr>ts_file = [], ts_name = [], ts_size_define = [], ts_data = None, ts_size = 0\<rparr>"

definition tilesets_zero :: "tileset_t list" where
  "tilesets_zero = replicate (unat MAX_TILESETS) tileset_zero"

text \<open>An assignment to a field of \<^verbatim>\<open>tilesets[tileset_index]\<close>.\<close>

definition set_tileset ::
  "tileset_t list \<Rightarrow> u32 \<Rightarrow> (tileset_t \<Rightarrow> tileset_t) \<Rightarrow> tileset_t list option" where
  "set_tileset tilesets tileset_index f =
     (if unat tileset_index < length tilesets
      then Some (tilesets[unat tileset_index := f (tilesets ! unat tileset_index)])
      else None)"

section \<open>What the program prints and writes\<close>

text \<open>
  The run's observable events, in order: a \<^verbatim>\<open>printf\<close> is its format string with its
  arguments (\<open>S\<close> a string for \<^verbatim>\<open>%s\<close>, \<open>D\<close> a number for \<^verbatim>\<open>%d\<close>, \<open>X\<close> a byte for
  \<^verbatim>\<open>%02X\<close>) and \<^verbatim>\<open>printf(lodepng_error_text(error))\<close> keeps the error code. The output
  files are written by \<^verbatim>\<open>fopen(path, "w")\<close>, \<^verbatim>\<open>fprintf\<close> to the file opened last and
  \<^verbatim>\<open>fclose\<close>; \<open>Fopen\<close> records the call, whether or not it opens the file.
\<close>

datatype arg = S string | D u32 | X u8

datatype event =
    Printf string "arg list"
  | Printf_error_text u32
  | Putchar char
  | Fprintf_stderr string "arg list"
  | Fopen string
  | Fprintf_file string "arg list"
  | Fclose

fun writes_file :: "event \<Rightarrow> bool" where
  "writes_file (Fopen path) = True"
| "writes_file (Fprintf_file format args) = True"
| "writes_file Fclose = True"
| "writes_file e = False"

definition skip_not_indexed :: string where
  "skip_not_indexed = CHR 0x09 # ''Skiping file: The image must be in indexed color mode\<newline>''"

definition skip_bitdepth :: string where
  "skip_bitdepth =
     CHR 0x09 # ''Skiping file: %d bpp not suported. Only 4bpp and 8bpp png files supported \<newline>''"

definition skip_colors :: string where
  "skip_colors = CHR 0x09 # ''Skiping file: More than 16 colors png image detected. \<newline>''"

definition skip_width :: string where
  "skip_width = CHR 0x09 # ''Skiping file: Image width is not multiple of 8. \<newline>''"

definition skip_height :: string where
  "skip_height = CHR 0x09 # ''Skiping file: Image height is not multiple of 8. \<newline>''"

definition error_4bpp :: string where
  "error_4bpp = CHR 0x09 # ''Error: Can'' @ CHR 0x27 # ''t conver image to 4bpp. \<newline>''"

definition error_capacity :: string where
  "error_capacity = ''Error: More than %d files in the source directory\<newline>''"

section \<open>Reading one file: \<^verbatim>\<open>tileset_read\<close> (lines 318-436)\<close>

text \<open>
  Modelled from the spec: the declarations of \<^verbatim>\<open>lodepng.h\<close>, which is not among the
  sources (the specification's DecodedImage: colour mode, bit depth, palette entry count,
  dimensions and pixel buffer, or a decode error). What \<^verbatim>\<open>tileset_read\<close> takes from the
  decoder is the error code of \<^verbatim>\<open>lodepng_load_file\<close>, the error code of
  \<^verbatim>\<open>lodepng_decode\<close> with the pixel buffer and the dimensions it returns, and three
  fields of \<^verbatim>\<open>png_state.info_png.color\<close>. A \<open>png_file\<close> holds these for the file at one
  path, together with the answers of the two calls of \<^verbatim>\<open>malloc\<close> made while it is
  processed. Of the colour types only the comparison with \<^verbatim>\<open>LCT_PALETTE\<close> is used.
\<close>

datatype LodePNGColorType = LCT_GREY | LCT_RGB | LCT_PALETTE | LCT_GREY_ALPHA | LCT_RGBA

record png_file =
  load_error :: u32
  decode_error :: u32
  colortype :: LodePNGColorType
  bitdepth :: u32
  palettesize :: u64
  image_width :: u32
  image_height :: u32
  image_data :: "u8 list"
  malloc_4bpp :: "nat \<Rightarrow> bool"
  malloc_tiles :: "nat \<Rightarrow> bool"

text \<open>
  The result is the returned code with the array \<^verbatim>\<open>tilesets\<close> and the events printed.
  The calls of \<^verbatim>\<open>free\<close> have no counterpart here. The format of \<open>skip_bitdepth\<close> has a
  \<^verbatim>\<open>%d\<close> and the call passes no argument for it, so the number printed is arbitrary;
  the event keeps the format.
\<close>

definition tileset_read ::
  "string \<Rightarrow> string \<Rightarrow> png_file \<Rightarrow> u32 \<Rightarrow> tileset_t list
     \<Rightarrow> (u32 \<times> tileset_t list \<times> event list) option" where
  "tileset_read path file png tileset_index tilesets = do {
     file_path \<leftarrow> strcpy MAX_PATH_LENGTH path;
     file_path \<leftarrow> strcat MAX_PATH_LENGTH file_path ''/'';
     file_path \<leftarrow> strcat MAX_PATH_LENGTH file_path file;
     let out = [Printf ''File %s\<newline>'' [S file_path]];
     if load_error png \<noteq> 0 then
       Some (load_error png, tilesets, out @ [Printf_error_text (load_error png)])
     else if decode_error png \<noteq> 0 then
       Some (decode_error png, tilesets,
             out @ [Printf (CHR 0x09 # ''Skiping file: '') [],
                    Printf_error_text (decode_error png), Putchar (CHR 0x0A)])
     else if colortype png \<noteq> LCT_PALETTE then
       Some (1, tilesets, out @ [Printf skip_not_indexed []])
     else if bitdepth png \<noteq> 4 \<and> bitdepth png \<noteq> 8 then
       Some (1, tilesets, out @ [Printf skip_bitdepth []])
     else if palettesize png > 16 then
       Some (1, tilesets, out @ [Printf skip_colors []])
     else if image_width png mod 8 \<noteq> 0 then
       Some (1, tilesets, out @ [Printf skip_width []])
     else if image_height png mod 8 \<noteq> 0 then
       Some (1, tilesets, out @ [Printf skip_height []])
     else do {
       image_4bpp \<leftarrow>
         (if bitdepth png = 8
          then image_to_4bpp (malloc_4bpp png) (image_data png) (image_width png * image_width png)
          else Some (Some (image_data png)));
       case image_4bpp of
         None \<Rightarrow> Some (1, tilesets, out @ [Printf error_4bpp []])
       | Some image_4bpp \<Rightarrow> do {
           tiles \<leftarrow> image_4bpp_to_tile (malloc_tiles png) image_4bpp
                      (image_width png) (image_height png);
           tilesets \<leftarrow> set_tileset tilesets tileset_index (\<lambda>t. t\<lparr>ts_data := tiles\<rparr>);
           copy \<leftarrow> strcpy MAX_FILE_NAME_LENGTH file;
           tilesets \<leftarrow> set_tileset tilesets tileset_index (\<lambda>t. t\<lparr>ts_file := copy\<rparr>);
           tilesets \<leftarrow> set_tileset tilesets tileset_index
             (\<lambda>t. t\<lparr>ts_size := ucast ((image_width png div 8) * (image_height png div 8))\<rparr>);
           copy \<leftarrow> strcpy MAX_FILE_NAME_LENGTH file;
           tilesets \<leftarrow> set_tileset tilesets tileset_index (\<lambda>t. t\<lparr>ts_name := copy\<rparr>);
           tilesets \<leftarrow> set_tileset tilesets tileset_index
             (\<lambda>t. case strrchr (ts_name t) (CHR ''.'') of
                    Some file_ext \<Rightarrow> t\<lparr>ts_name := take file_ext (ts_name t)\<rparr>
                  | None \<Rightarrow> t);
           Some (0, tilesets, out)
         }
     }
   }"

section \<open>The run: \<^verbatim>\<open>main\<close> (lines 600-711)\<close>

text \<open>
  \<^verbatim>\<open>readdir\<close> yields the entries of the source directory one by one; an entry is its
  \<^verbatim>\<open>d_type\<close>, its \<^verbatim>\<open>d_name\<close> and, for the model, the file found under that name.
\<close>

datatype d_type_t = DT_UNKNOWN | DT_FIFO | DT_CHR | DT_DIR | DT_BLK | DT_REG | DT_LNK | DT_SOCK

record dirent =
  d_type :: d_type_t
  d_name :: string
  d_file :: png_file

record params_t =
  src_path :: string
  dest_path :: string
  dest_name :: "string option"

definition EXIT_SUCCESS :: int where
  "EXIT_SUCCESS = 0"

definition EXIT_FAILURE :: int where
  "EXIT_FAILURE = 1"

definition version_text :: string where
  "version_text =
     ''tilesettool v0.02\<newline>'' @
     ''A Sega Megadrive/Genesis image tileset extractor\<newline>'' @
     ''Coded by: Juan '' @ [CHR 0xC3, CHR 0x81] @ ''ngel Moreno Fern'' @ [CHR 0xC3, CHR 0xA1] @
     ''ndez (@_tapule) 2024\<newline>'' @
     ''Github: https://github.com/tapule/mdtools\<newline>''"

text \<open>
  The loop \<^verbatim>\<open>while ((dir_entry = readdir(dir)) != NULL)\<close> of lines 630-650, over the
  entries still to come. \<open>Inl\<close> is the \<^verbatim>\<open>return EXIT_FAILURE\<close> of line 637, \<open>Inr\<close> the
  end of the directory, each with the events so far.
\<close>

fun read_files ::
  "string \<Rightarrow> dirent list \<Rightarrow> u32 \<Rightarrow> tileset_t list \<Rightarrow> event list
     \<Rightarrow> (event list + u32 \<times> tileset_t list \<times> event list) option" where
  "read_files path [] tileset_index tilesets out = Some (Inr (tileset_index, tilesets, out))"
| "read_files path (dir_entry # rest) tileset_index tilesets out =
     (if tileset_index \<ge> MAX_TILESETS then
        Some (Inl (out @ [Fprintf_stderr error_capacity [D MAX_TILESETS]]))
      else if d_type dir_entry = DT_REG then
        (case tileset_read path (d_name dir_entry) (d_file dir_entry) tileset_index tilesets of
           None \<Rightarrow> None
         | Some (error, tilesets, printed) \<Rightarrow>
             if error = 0 then
               read_files path rest (tileset_index + 1) tilesets
                 (out @ printed @
                  [Printf (CHR 0x09 # ''Png file to tiles: %s -> %s\<newline>'')
                     [S (d_name dir_entry), S (ts_name (tilesets ! unat tileset_index))]])
             else read_files path rest tileset_index tilesets (out @ printed))
      else read_files path rest tileset_index tilesets out)"

text \<open>
  Lines 656-675: the source path is not a directory and is split at its last \<^verbatim>\<open>'/'\<close>
  into a directory and the name of the one file to read.
\<close>

definition read_file ::
  "string \<Rightarrow> png_file \<Rightarrow> (u32 \<times> tileset_t list \<times> event list) option" where
  "read_file src file =
     (let (path, file_name) =
            (case strrchr src (CHR ''/'') of
               Some i \<Rightarrow> (take i src, drop (Suc i) src)
             | None \<Rightarrow> (''.'', src));
          out = [Printf version_text [], Printf ''\<newline>Reading file...\<newline>'' []]
      in case tileset_read path file_name file 0 tilesets_zero of
           None \<Rightarrow> None
         | Some (error, tilesets, printed) \<Rightarrow>
             if error = 0 then
               Some (1, tilesets,
                     out @ printed @
                     [Printf (CHR 0x09 # ''File to binary: %s -> %s\<newline>'')
                        [S file_name, S (ts_name (tilesets ! 0))]])
             else Some (0, tilesets, out @ printed))"

section \<open>The output stage: \<^verbatim>\<open>build_header_file\<close> and \<^verbatim>\<open>build_source_file\<close>\<close>

text \<open>
  \<^verbatim>\<open>toupper\<close> in the "C" locale (the program never sets another one): the letters
  \<^verbatim>\<open>a\<close> to \<^verbatim>\<open>z\<close> become \<^verbatim>\<open>A\<close> to \<^verbatim>\<open>Z\<close>, every other character stays.
  \<^verbatim>\<open>strtoupper\<close> (lines 119-129) applies it to every character of the string in place.
  A character is its value as \<^verbatim>\<open>unsigned char\<close>, 0 to 255.
\<close>

definition toupper :: "char \<Rightarrow> char" where
  "toupper c =
     (if 97 \<le> (of_char c :: nat) \<and> (of_char c :: nat) \<le> 122
      then char_of ((of_char c :: nat) - 32)
      else c)"

definition strtoupper :: "string \<Rightarrow> string" where
  "strtoupper str = map toupper str"

text \<open>A read of \<^verbatim>\<open>tilesets[i]\<close>, and of \<^verbatim>\<open>tilesets[i].data[p]\<close> through the stored pointer.\<close>

definition get_tileset :: "tileset_t list \<Rightarrow> u32 \<Rightarrow> tileset_t option" where
  "get_tileset tilesets i =
     (if unat i < length tilesets then Some (tilesets ! unat i) else None)"

definition read_data :: "tileset_t \<Rightarrow> u32 \<Rightarrow> u8 option" where
  "read_data t p = (case ts_data t of None \<Rightarrow> None | Some buf \<Rightarrow> read_u8 buf (unat p))"

text \<open>\<^verbatim>\<open>strcat(tilesets[i].size_define, src)\<close>, into the 128 bytes of the field.\<close>

definition strcat_size_define :: "tileset_t list \<Rightarrow> u32 \<Rightarrow> string \<Rightarrow> tileset_t list option" where
  "strcat_size_define tilesets i src = do {
     t \<leftarrow> get_tileset tilesets i;
     d \<leftarrow> strcat MAX_FILE_NAME_LENGTH (ts_size_define t) src;
     set_tileset tilesets i (\<lambda>t. t\<lparr>ts_size_define := d\<rparr>)
   }"

text \<open>
  Lines 499-505 and 558-564: \<^verbatim>\<open>buff\<close> (1024 bytes) is emptied and filled with the name
  of tileset \<open>i\<close>, after the prefix and \<^verbatim>\<open>"_"\<close> when a prefix is used.
\<close>

definition prefixed_name :: "string \<Rightarrow> bool \<Rightarrow> tileset_t list \<Rightarrow> u32 \<Rightarrow> string option" where
  "prefixed_name name use_prefix tilesets i = do {
     buff \<leftarrow> (if use_prefix
              then do { buff \<leftarrow> strcpy 1024 name; strcat 1024 buff ''_'' }
              else Some []);
     t \<leftarrow> get_tileset tilesets i;
     strcat 1024 buff (ts_name t)
   }"

text \<open>
  \<^verbatim>\<open>build_header_file\<close> (lines 447-519). \<open>fopen\<close> tells whether the file at a path can
  be opened for writing. The result is the returned \<^verbatim>\<open>bool\<close> with the array
  \<^verbatim>\<open>tilesets\<close> (the function fills the \<^verbatim>\<open>size_define\<close> fields) and the events.
\<close>

definition build_header_file ::
  "(string \<Rightarrow> bool) \<Rightarrow> string \<Rightarrow> string \<Rightarrow> bool \<Rightarrow> u32 \<Rightarrow> tileset_t list
     \<Rightarrow> (bool \<times> tileset_t list \<times> event list) option" where
  "build_header_file fopen path name use_prefix tileset_count tilesets = do {
     buff \<leftarrow> strcpy 1024 path;
     buff \<leftarrow> strcat 1024 buff ''/'';
     buff \<leftarrow> strcat 1024 buff name;
     buff \<leftarrow> strcat 1024 buff ''.h'';
     if \<not> fopen buff then Some (False, tilesets, [Fopen buff])
     else do {
       let out = [Fopen buff,
                  Fprintf_file (''/* Generated with tilesettool v0.02                    */\<newline>'') [],
                  Fprintf_file (''/* a Sega Megadrive/Genesis image tileset extractor    */\<newline>'') [],
                  Fprintf_file (''/* Github: https://github.com/tapule/mdtools             */\<newline>\<newline>'') []];
       buff \<leftarrow> strcpy 1024 name;
       let buff = strtoupper buff;
       buff \<leftarrow> strcat 1024 buff ''_H'';
       let out = out @ [Fprintf_file (''#ifndef %s\<newline>'') [S buff],
                        Fprintf_file (''#define %s\<newline>\<newline>'') [S buff],
                        Fprintf_file (''#include <stdint.h>\<newline>\<newline>'') []];
       (tilesets, out) \<leftarrow>
         for_u32 0 tileset_count
           (\<lambda>i (tilesets, out). do {
               tilesets \<leftarrow> set_tileset tilesets i (\<lambda>t. t\<lparr>ts_size_define := []\<rparr>);
               tilesets \<leftarrow>
                 (if use_prefix
                  then do {
                    d \<leftarrow> strcpy MAX_FILE_NAME_LENGTH name;
                    tilesets \<leftarrow> set_tileset tilesets i (\<lambda>t. t\<lparr>ts_size_define := d\<rparr>);
                    strcat_size_define tilesets i ''_''
                  }
                  else Some tilesets);
               t \<leftarrow> get_tileset tilesets i;
               tilesets \<leftarrow> strcat_size_define tilesets i (ts_name t);
               tilesets \<leftarrow> strcat_size_define tilesets i ''_SIZE'';
               tilesets \<leftarrow> set_tileset tilesets i
                 (\<lambda>t. t\<lparr>ts_size_define := strtoupper (ts_size_define t)\<rparr>);
               t \<leftarrow> get_tileset tilesets i;
               Some (tilesets,
                     out @ [Fprintf_file (''#define %s    %d\<newline>'')
                              [S (ts_size_define t), D (ucast (ts_size t))]])
             })
           (tilesets, out);
       let out = out @ [Fprintf_file (''\<newline>'') []];
       out \<leftarrow>
         for_u32 0 tileset_count
           (\<lambda>i out. do {
               buff \<leftarrow> prefixed_name name use_prefix tilesets i;
               t \<leftarrow> get_tileset tilesets i;
               Some (out @ [Fprintf_file (''extern const uint32_t %s[%s * 8];\<newline>'') [S buff, S (ts_size_define t)]])
             })
           out;
       let out = out @ [Fprintf_file (''\<newline>'') []];
       buff \<leftarrow> strcpy 1024 name;
       let buff = strtoupper buff;
       buff \<leftarrow> strcat 1024 buff ''_H'';
       Some (True, tilesets, out @ [Fprintf_file (''#endif /* %s */\<newline>'') [S buff], Fclose])
     }
   }"

text \<open>
  One row of a tile in \<^verbatim>\<open>build_source_file\<close> (lines 579-589): four bytes of the
  tileset's data printed as one 32-bit hexadecimal number.
\<close>

definition print_tile_row :: "tileset_t \<Rightarrow> u32 \<Rightarrow> u32 \<Rightarrow> event list \<Rightarrow> event list option" where
  "print_tile_row t tile row out = do {
     b0 \<leftarrow> read_data t ((tile * 32) + (row * 4));
     b1 \<leftarrow> read_data t ((tile * 32) + (row * 4) + 1);
     b2 \<leftarrow> read_data t ((tile * 32) + (row * 4) + 2);
     b3 \<leftarrow> read_data t ((tile * 32) + (row * 4) + 3);
     Some (out @
           [Fprintf_file ''0x'' [],
            Fprintf_file ''%02X'' [X b0], Fprintf_file ''%02X'' [X b1],
            Fprintf_file ''%02X'' [X b2], Fprintf_file ''%02X'' [X b3]] @
           (if row < 7 then [Fprintf_file '', '' []] else []))
   }"

text \<open>
  \<^verbatim>\<open>build_source_file\<close> (lines 530-598). The loop over \<^verbatim>\<open>tile\<close> runs to
  \<^verbatim>\<open>tilesets[tileset].size\<close>, a \<^verbatim>\<open>uint16_t\<close> compared with the \<^verbatim>\<open>uint32_t\<close> counter.
\<close>

definition build_source_file ::
  "(string \<Rightarrow> bool) \<Rightarrow> string \<Rightarrow> string \<Rightarrow> bool \<Rightarrow> u32 \<Rightarrow> tileset_t list
     \<Rightarrow> (bool \<times> event list) option" where
  "build_source_file fopen path name use_prefix tileset_count tilesets = do {
     buff \<leftarrow> strcpy 1024 path;
     buff \<leftarrow> strcat 1024 buff ''/'';
     buff \<leftarrow> strcat 1024 buff name;
     buff \<leftarrow> strcat 1024 buff ''.c'';
     if \<not> fopen buff then Some (False, [Fopen buff])
     else do {
       let out = [Fopen buff];
       buff \<leftarrow> strcpy 1024 name;
       buff \<leftarrow> strcat 1024 buff ''.h'';
       let out = out @ [Fprintf_file (''#include '' @ [CHR 0x22] @ ''%s'' @ [CHR 0x22] @ ''\<newline>\<newline>'') [S buff]];
       out \<leftarrow>
         for_u32 0 tileset_count
           (\<lambda>tileset out. do {
               buff \<leftarrow> prefixed_name name use_prefix tilesets tileset;
               t \<leftarrow> get_tileset tilesets tileset;
               let out = out @ [Fprintf_file (''const uint32_t %s[%s * 8] = {'') [S buff, S (ts_size_define t)]];
               out \<leftarrow>
                 for_u32 0 (ucast (ts_size t))
                   (\<lambda>tile out. do {
                       let out = out @ (if tile \<noteq> 0 then [Fprintf_file '', '' []] else []);
                       let out = out @ [Fprintf_file (''\<newline>    '') []];
                       for_u32 0 8 (\<lambda>row. print_tile_row t tile row) out
                     })
                   out;
               Some (out @ [Fprintf_file (''\<newline>};\<newline>\<newline>'') []])
             })
           out;
       Some (True, out @ [Fclose])
     }
   }"

text \<open>
  \<^verbatim>\<open>main\<close> from line 624 on, after \<^verbatim>\<open>parse_params\<close> has returned
  \<^verbatim>\<open>PARAMS_CONTINUE\<close>: \<open>params\<close> are the parsed parameters (with \<^verbatim>\<open>"."\<close> for a path
  that was not given), \<open>dir\<close> is what \<^verbatim>\<open>opendir(params.src_path)\<close> finds (\<open>None\<close> when
  the path is no directory), \<open>file\<close> is the file at the path in that case and \<open>fopen\<close>
  tells which output files can be opened. The result is the exit status with the events
  of the run. The values returned by \<^verbatim>\<open>build_header_file\<close> and \<^verbatim>\<open>build_source_file\<close>
  are not looked at by \<^verbatim>\<open>main\<close>.
\<close>

definition main ::
  "(string \<Rightarrow> bool) \<Rightarrow> params_t \<Rightarrow> dirent list option \<Rightarrow> png_file
     \<Rightarrow> (int \<times> event list) option" where
  "main fopen params dir file =
     (case (case dir of
              Some entries \<Rightarrow>
                read_files (src_path params) entries 0 tilesets_zero
                  [Printf version_text [], Printf ''\<newline>Reading files...\<newline>'' []]
            | None \<Rightarrow> map_option Inr (read_file (src_path params) file)) of
        None \<Rightarrow> None
      | Some (Inl out) \<Rightarrow> Some (EXIT_FAILURE, out)
      | Some (Inr (tileset_index, tilesets, out)) \<Rightarrow>
          (let out = out @ [Printf ''%d tilesets readed.\<newline>'' [D tileset_index]] in
           if tileset_index > 0 then
             (let (name, use_prefix) =
                    (case dest_name params of
                       Some name \<Rightarrow> (name, True)
                     | None \<Rightarrow>
                         if tileset_index = 1 then (ts_name (tilesets ! 0), False)
                         else (''til'', True))
              in do {
                   (built, tilesets, header) \<leftarrow>
                     build_header_file fopen (dest_path params) name use_prefix
                       tileset_index tilesets;
                   (built, source) \<leftarrow>
                     build_source_file fopen (dest_path params) name use_prefix
                       tileset_index tilesets;
                   Some (EXIT_SUCCESS,
                         out @ [Printf ''Building C header file...\<newline>'' []] @ header @
                         [Printf ''Building C source file...\<newline>'' []] @ source @
                         [Printf ''Done.\<newline>'' []])
                 })
           else Some (EXIT_SUCCESS, out)))"

section \<open>Closed forms for the proofs\<close>

text \<open>The normalizer's output on the first \<open>2 * n\<close> bytes of \<open>img\<close>.\<close>

definition packed :: "u8 list \<Rightarrow> nat \<Rightarrow> u8 list" where
  "packed img n = map (\<lambda>i. pack (img ! (2 * i)) (img ! (2 * i + 1))) [0..<n]"

text \<open>
  For an image \<open>tw\<close> tiles wide: the offset in the image of the byte that the extractor
  stores at offset \<open>j\<close> of the tiles buffer (tile \<open>j div 32\<close>, row \<open>j mod 32 div 4\<close>
  of the tile, byte \<open>j mod 4\<close> of the row), and the other way round.
\<close>

definition tile_src :: "nat \<Rightarrow> nat \<Rightarrow> nat" where
  "tile_src tw j =
     ((j div 32) div tw * 8 + (j mod 32) div 4) * (tw * 4) + ((j div 32) mod tw) * 4 + j mod 4"

definition tile_dst :: "nat \<Rightarrow> nat \<Rightarrow> nat" where
  "tile_dst tw p =
     ((p div (tw * 4)) div 8 * tw + (p mod (tw * 4)) div 4) * 32
       + ((p div (tw * 4)) mod 8) * 4 + p mod 4"

definition tiled :: "u8 list \<Rightarrow> nat \<Rightarrow> nat \<Rightarrow> u8 list" where
  "tiled img tw th = map (\<lambda>j. img ! tile_src tw j) [0..<tw * th * 32]"

text \<open>The loop invariant of the extractor: the first \<open>p\<close> bytes of \<open>tiles\<close> are final.\<close>

definition filled :: "u8 list \<Rightarrow> nat \<Rightarrow> nat \<Rightarrow> u8 list \<Rightarrow> nat \<Rightarrow> bool" where
  "filled img tw L tiles p \<longleftrightarrow>
     length tiles = L \<and> p \<le> L \<and> take p tiles = map (\<lambda>j. img ! tile_src tw j) [0..<p]"

text \<open>
  The inverse of the extractor that the specification speaks of (the program has none):
  a tiles buffer put back into raster order, for an image \<open>width\<close> pixels wide. The byte at
  offset \<open>p\<close> of the image, in image row \<open>p div pitch\<close>, is taken from the tile that
  covers it.
\<close>

definition tiles_to_image_4bpp :: "u8 list \<Rightarrow> u32 \<Rightarrow> u8 list" where
  "tiles_to_image_4bpp tiles width =
     map (\<lambda>p. tiles ! tile_dst (unat width div 8) p) [0..<length tiles]"

section \<open>Batches and their files\<close>

text \<open>
  The code \<^verbatim>\<open>tileset_read\<close> returns for a directory entry (it depends neither on the slot
  of the catalog nor on the catalog's contents), and the entries that end up in the
  catalog: regular files for which the code is 0.
\<close>

definition read_status :: "string \<Rightarrow> dirent \<Rightarrow> u32 option" where
  "read_status path e = map_option fst (tileset_read path (d_name e) (d_file e) 0 tilesets_zero)"

definition processable :: "string \<Rightarrow> dirent \<Rightarrow> bool" where
  "processable path e \<longleftrightarrow> d_type e = DT_REG \<and> read_status path e = Some 0"

text \<open>Concrete files and entries, for the closed theorems below.\<close>

definition png_16x8_zero :: png_file where
  "png_16x8_zero =
     \<lparr>load_error = 0, decode_error = 0, colortype = LCT_PALETTE, bitdepth = 4,
      palettesize = 4, image_width = 16, image_height = 8, image_data = replicate 64 0,
      malloc_4bpp = malloc_succeeds, malloc_tiles = malloc_succeeds\<rparr>"

definition png_8x16_8bpp :: png_file where
  "png_8x16_8bpp =
     \<lparr>load_error = 0, decode_error = 0, colortype = LCT_PALETTE, bitdepth = 8,
      palettesize = 16, image_width = 8, image_height = 16, image_data = replicate 128 1,
      malloc_4bpp = malloc_succeeds, malloc_tiles = malloc_succeeds\<rparr>"

definition png_rgb_65x64 :: png_file where
  "png_rgb_65x64 =
     \<lparr>load_error = 0, decode_error = 0, colortype = LCT_RGB, bitdepth = 8,
      palettesize = 0, image_width = 65, image_height = 64, image_data = replicate 12480 0,
      malloc_4bpp = malloc_succeeds, malloc_tiles = malloc_succeeds\<rparr>"

definition png_8x8_4bpp :: png_file where
  "png_8x8_4bpp =
     \<lparr>load_error = 0, decode_error = 0, colortype = LCT_PALETTE, bitdepth = 4,
      palettesize = 16, image_width = 8, image_height = 8, image_data = replicate 32 0x21,
      malloc_4bpp = malloc_succeeds, malloc_tiles = malloc_succeeds\<rparr>"

definition png_8x8_4bpp_no_tiles :: png_file where
  "png_8x8_4bpp_no_tiles = png_8x8_4bpp\<lparr>malloc_tiles := malloc_fails\<rparr>"

definition png_8x8_8bpp_no_4bpp :: png_file where
  "png_8x8_8bpp_no_4bpp =
     png_8x8_4bpp\<lparr>bitdepth := 8, image_data := replicate 64 1, malloc_4bpp := malloc_fails\<rparr>"

definition tile_png :: dirent where
  "tile_png = \<lparr>d_type = DT_REG, d_name = ''tile.png'', d_file = png_8x8_4bpp\<rparr>"

definition rgb_png :: dirent where
  "rgb_png = \<lparr>d_type = DT_REG, d_name = ''rgb.png'', d_file = png_rgb_65x64\<rparr>"

definition subdir :: dirent where
  "subdir = \<lparr>d_type = DT_DIR, d_name = ''sub'', d_file = png_rgb_65x64\<rparr>"

definition fopen_succeeds :: "string \<Rightarrow> bool" where
  "fopen_succeeds path = True"

definition params_default :: params_t where
  "params_default = \<lparr>src_path = ''.'', dest_path = ''.'', dest_name = None\<rparr>"

definition tile_png_no_tiles :: dirent where
  "tile_png_no_tiles = \<lparr>d_type = DT_REG, d_name = ''tile.png'', d_file = png_8x8_4bpp_no_tiles\<rparr>"

text \<open>A 16 by 8 image at 4bpp whose byte at offset \<open>p\<close> is \<open>p\<close>.\<close>

definition ramp_16x8 :: "u8 list" where
  "ramp_16x8 = map of_nat [0..<64]"

section \<open>Loops over a 32-bit counter\<close>

lemma unat_inc: "i < (n :: u32) \<Longrightarrow> unat (i + 1) = Suc (unat i)"
proof -
  assume less: "i < n"
  have "unat n < 2 ^ LENGTH(32)" by (rule unsigned_less)
  with less have "unat i + unat (1 :: u32) < 2 ^ LENGTH(32)"
    by (simp add: word_less_nat_alt)
  then have "unat (i + 1) = unat i + unat (1 :: u32)"
    by (simp only: unat_add_lem)
  then show ?thesis by simp
qed

text \<open>Total correctness: an invariant that every pass keeps holds when the loop ends,
  and the loop does end inside defined behaviour.\<close>

lemma for_u32_total:
  assumes "i \<le> n" and "I i s"
    and step: "\<And>k s. i \<le> k \<Longrightarrow> k < n \<Longrightarrow> I k s \<Longrightarrow> \<exists>s'. body k s = Some s' \<and> I (k + 1) s'"
  shows "\<exists>s'. for_u32 i n body s = Some s' \<and> I n s'"
  using assms
proof (induction i n body s rule: for_u32.induct)
  case (1 i n body s)
  show ?case
  proof (cases "i < n")
    case True
    from "1.prems"(3)[OF order_refl True "1.prems"(2)]
    obtain s1 where b: "body i s = Some s1" and I1: "I (i + 1) s1" by blast
    have le: "i + 1 \<le> n" using True by (rule inc_le)
    have ile: "i \<le> i + 1" using True unat_inc[OF True] by (simp add: word_le_nat_alt)
    have "\<exists>s'. for_u32 (i + 1) n body s1 = Some s' \<and> I n s'"
    proof (rule "1.IH"[OF True b le I1])
      fix k s assume "i + 1 \<le> k" "k < n" "I k s"
      with ile show "\<exists>s'. body k s = Some s' \<and> I (k + 1) s'"
        using "1.prems"(3) by (meson order_trans)
    qed
    with True b show ?thesis by (subst for_u32.simps) simp
  next
    case False
    with "1.prems"(1) have "i = n" by simp
    with "1.prems"(2) show ?thesis by (subst for_u32.simps) simp
  qed
qed

text \<open>Partial correctness: what a loop that ended inside defined behaviour has kept.\<close>

lemma for_u32_partial:
  assumes "for_u32 i n body s = Some s'" and "i \<le> n" and "I i s"
    and step: "\<And>k s s'. i \<le> k \<Longrightarrow> k < n \<Longrightarrow> I k s \<Longrightarrow> body k s = Some s' \<Longrightarrow> I (k + 1) s'"
  shows "I n s'"
  using assms
proof (induction i n body s rule: for_u32.induct)
  case (1 i n body s)
  show ?case
  proof (cases "i < n")
    case True
    from "1.prems"(1) True obtain s1 where b: "body i s = Some s1"
      and r: "for_u32 (i + 1) n body s1 = Some s'"
      by (subst (asm) for_u32.simps) (auto split: option.splits)
    have I1: "I (i + 1) s1" by (rule "1.prems"(4)[OF order_refl True "1.prems"(3) b])
    have le: "i + 1 \<le> n" using True by (rule inc_le)
    have ile: "i \<le> i + 1" using True unat_inc[OF True] by (simp add: word_le_nat_alt)
    show ?thesis
    proof (rule "1.IH"[OF True b r le I1])
      fix k s s' assume "i + 1 \<le> k" "k < n" "I k s" "body k s = Some s'"
      with ile show "I (k + 1) s'"
        using "1.prems"(4) by (meson order_trans)
    qed
  next
    case False
    with "1.prems"(2) have "i = n" by simp
    with "1.prems"(1,3) False show ?thesis by (subst (asm) for_u32.simps) simp
  qed
qed

section \<open>The Depth Normalizer computes \<open>packed\<close>\<close>

lemma pack_eq: "pack s0 s1 = push_bit 4 (s0 AND 0x0F) OR (s1 AND 0x0F)"
  unfolding pack_def
  by (rule bit_word_eqI) (auto simp: bit_simps)

lemma image_to_4bpp_loop:
  assumes len: "2 * unat n \<le> length img"
  shows "for_u32 0 n
            (\<lambda>i (image_4bpp, dest, src). do {
                s0 \<leftarrow> read_u8 img src;
                s1 \<leftarrow> read_u8 img (src + 1);
                image_4bpp \<leftarrow> write_u8 image_4bpp dest (pack s0 s1);
                Some (image_4bpp, dest + 1, src + 2)
              })
            (fresh (unat n), 0, 0) = Some (packed img (unat n), unat n, 2 * unat n)"
proof -
  let ?body = "(\<lambda>i (image_4bpp, dest, src). do {
                s0 \<leftarrow> read_u8 img src;
                s1 \<leftarrow> read_u8 img (src + 1);
                image_4bpp \<leftarrow> write_u8 image_4bpp dest (pack s0 s1);
                Some (image_4bpp, dest + 1, src + 2)
              })"
  let ?I = "\<lambda>k (buf, dest, src). dest = unat k \<and> src = 2 * unat k \<and> length buf = unat n
              \<and> take (unat k) buf = packed img (unat k)"
  have "\<exists>s'. for_u32 0 n ?body (fresh (unat n), 0, 0) = Some s' \<and> ?I n s'"
  proof (rule for_u32_total[where I = "?I"])
    show "(0 :: u32) \<le> n" by simp
    show "?I 0 (fresh (unat n), 0, 0)" by (simp add: fresh_def packed_def)
  next
    fix k s assume k: "k < n" and I: "?I k s"
    obtain buf dest src where s: "s = (buf, dest, src)" by (cases s)
    from k have kn: "unat k < unat n" by (simp add: word_less_nat_alt)
    from I s have d: "dest = unat k" "src = 2 * unat k" "length buf = unat n"
      "take (unat k) buf = packed img (unat k)" by auto
    have "take (Suc (unat k)) (buf[unat k := pack (img ! (2 * unat k)) (img ! (2 * unat k + 1))])
        = packed img (Suc (unat k))"
      using d kn by (simp add: take_Suc_conv_app_nth packed_def)
    then show "\<exists>s'. ?body k s = Some s' \<and> ?I (k + 1) s'"
      using s d kn len unat_inc[OF k] by (simp add: read_u8_def write_u8_def)
  qed
  then obtain buf dest src where r: "for_u32 0 n ?body (fresh (unat n), 0, 0) = Some (buf, dest, src)"
    and I: "?I n (buf, dest, src)" by auto
  from I have "take (length buf) buf = packed img (unat n)" by simp
  then have "buf = packed img (unat n)" by simp
  with r I show ?thesis by simp
qed

lemma image_to_4bpp_granted:
  assumes "malloc (unat sz div 2)" and "unat sz \<le> length img"
  shows "image_to_4bpp malloc img sz = Some (Some (packed img (unat sz div 2)))"
proof -
  have n: "unat (sz div 2) = unat sz div 2" by (simp add: unat_div)
  have "2 * unat (sz div 2) \<le> length img" using assms(2) n by simp
  from image_to_4bpp_loop[OF this] assms(1) show ?thesis
    by (simp add: image_to_4bpp_def n)
qed

lemma image_to_4bpp_refused:
  "\<not> malloc (unat sz div 2) \<Longrightarrow> image_to_4bpp malloc img sz = Some None"
  by (simp add: image_to_4bpp_def unat_div)

section \<open>Offsets of the tile layout\<close>

lemma tile_src_at:
  assumes "tx < tw" "r < (8 :: nat)" "c < (4 :: nat)"
  shows "tile_src tw ((ty * tw + tx) * 32 + 4 * r + c) = (ty * 8 + r) * (tw * 4) + tx * 4 + c"
proof -
  let ?j = "(ty * tw + tx) * 32 + 4 * r + c"
  have q: "4 * r + c < 32" using assms by simp
  have j: "?j = (ty * tw + tx) * 32 + (4 * r + c)" by simp
  have d: "?j div 32 = ty * tw + tx" unfolding j using q by (simp only: div_mult_self3 div_less)
  have m: "?j mod 32 = 4 * r + c" unfolding j using q by (simp only: mod_mult_self3 mod_less)
  have m4: "?j mod 4 = c"
  proof -
    have "?j = 4 * ((ty * tw + tx) * 8 + r) + c" by simp
    then show ?thesis using assms(3) by (metis mod_mult_self4 mod_less)
  qed
  have d1: "(ty * tw + tx) div tw = ty" using assms(1) by simp
  have m1: "(ty * tw + tx) mod tw = tx" using assms(1) by simp
  have d4: "(4 * r + c) div 4 = r" using assms(3) by simp
  show ?thesis unfolding tile_src_def d m m4 d1 m1 d4 ..
qed

lemma tile_dst_at:
  assumes "tx < tw" "r < (8 :: nat)" "c < (4 :: nat)"
  shows "tile_dst tw ((ty * 8 + r) * (tw * 4) + tx * 4 + c) = (ty * tw + tx) * 32 + 4 * r + c"
proof -
  let ?p = "(ty * 8 + r) * (tw * 4) + tx * 4 + c"
  have x: "tx * 4 + c < tw * 4" using assms by simp
  have p: "?p = (ty * 8 + r) * (tw * 4) + (tx * 4 + c)" by simp
  have d: "?p div (tw * 4) = ty * 8 + r" unfolding p using x by (simp only: div_mult_self3 div_less)
  have m: "?p mod (tw * 4) = tx * 4 + c" unfolding p using x by (simp only: mod_mult_self3 mod_less)
  have m4: "?p mod 4 = c"
  proof -
    have "?p = 4 * ((ty * 8 + r) * tw + tx) + c" by (simp add: algebra_simps)
    then show ?thesis using assms(3) by (metis mod_mult_self4 mod_less)
  qed
  have d8: "(ty * 8 + r) div 8 = ty" using assms(2) by simp
  have m8: "(ty * 8 + r) mod 8 = r" using assms(2) by simp
  have d4: "(tx * 4 + c) div 4 = tx" using assms(3) by simp
  show ?thesis unfolding tile_dst_def d m m4 d8 m8 d4 by simp
qed

text \<open>Every offset of the tiles buffer is byte \<open>c\<close> of row \<open>r\<close> of a tile \<open>(ty, tx)\<close>.\<close>

lemma tile_offset_cases:
  assumes "j < tw * th * (32 :: nat)"
  obtains ty tx r c where "ty < th" "tx < tw" "r < 8" "c < 4"
    "j = (ty * tw + tx) * 32 + 4 * r + c"
proof -
  have tw: "0 < tw" using assms by (cases tw) auto
  let ?t = "j div 32"
  have t: "?t < tw * th" using assms by (simp add: less_mult_imp_div_less)
  have 1: "?t div tw < th" using t tw by (simp add: less_mult_imp_div_less mult.commute)
  have 2: "?t mod tw < tw" using tw by simp
  have 3: "(j mod 32) div 4 < 8" by (simp add: less_mult_imp_div_less)
  have 4: "j mod 4 < 4" by simp
  have "j mod 32 = 4 * ((j mod 32) div 4) + (j mod 32) mod 4" by simp
  moreover have "(j mod 32) mod 4 = j mod 4" by (simp add: mod_mod_cancel)
  ultimately have "j = ?t * 32 + 4 * ((j mod 32) div 4) + j mod 4"
    by (metis add.assoc div_mult_mod_eq)
  moreover have "?t = ?t div tw * tw + ?t mod tw" by simp
  ultimately have 5: "j = (?t div tw * tw + ?t mod tw) * 32 + 4 * ((j mod 32) div 4) + j mod 4"
    by simp
  from 1 2 3 4 5 show ?thesis by (rule that)
qed

lemma tile_src_less:
  assumes "j < tw * th * 32"
  shows "tile_src tw j < tw * th * 32"
proof -
  from assms obtain ty tx r c where b: "ty < th" "tx < tw" "r < 8" "c < 4"
    and j: "j = (ty * tw + tx) * 32 + 4 * r + c" by (rule tile_offset_cases)
  have "tile_src tw j = (ty * 8 + r) * (tw * 4) + tx * 4 + c"
    unfolding j using b(2-4) by (rule tile_src_at)
  also have "\<dots> < (ty * 8 + r) * (tw * 4) + tw * 4" using b by simp
  also have "\<dots> = (ty * 8 + r + 1) * (tw * 4)" by (simp add: algebra_simps)
  also have "\<dots> \<le> (th * 8) * (tw * 4)"
  proof (rule mult_le_mono1)
    show "ty * 8 + r + 1 \<le> th * 8" using b by simp
  qed
  finally show ?thesis by (simp add: algebra_simps)
qed

lemma tile_dst_src:
  assumes "j < tw * th * 32"
  shows "tile_dst tw (tile_src tw j) = j"
proof -
  from assms obtain ty tx r c where b: "ty < th" "tx < tw" "r < 8" "c < 4"
    and j: "j = (ty * tw + tx) * 32 + 4 * r + c" by (rule tile_offset_cases)
  show ?thesis unfolding j tile_src_at[OF b(2-4)] tile_dst_at[OF b(2-4)] ..
qed

section \<open>The Tile Extractor computes \<open>tiled\<close>\<close>

lemma filled_step:
  assumes f: "filled img tw L tiles p" and p: "p < L" and v: "v = img ! tile_src tw p"
  shows "filled img tw L (tiles[p := v]) (Suc p)"
  using assms by (simp add: filled_def take_Suc_conv_app_nth)

lemma copy_tile_row_ok:
  assumes f: "filled img tw L tiles p" and pL: "p + 4 \<le> L" and ip: "ip + 3 < length img"
    and src: "\<And>c. c < 4 \<Longrightarrow> tile_src tw (p + c) = ip + c"
  shows "\<exists>tiles'. copy_tile_row img pitch (tiles, p, ip) = Some (tiles', p + 4, ip + unat pitch)
            \<and> filled img tw L tiles' (p + 4)"
proof -
  have len: "length tiles = L" using f by (simp add: filled_def)
  have s0: "img ! ip = img ! tile_src tw p" using src[of 0] by simp
  have s1: "img ! (ip + 1) = img ! tile_src tw (Suc p)" using src[of 1] by simp
  have s2: "img ! (ip + 2) = img ! tile_src tw (Suc (Suc p))" using src[of 2] by simp
  have s3: "img ! (ip + 3) = img ! tile_src tw (Suc (Suc (Suc p)))"
    using src[of 3] by (simp add: numeral_3_eq_3)
  have f1: "filled img tw L (tiles[p := img ! ip]) (Suc p)"
    by (rule filled_step[OF f]) (use pL s0 in simp_all)
  have f2: "filled img tw L (tiles[p := img ! ip, Suc p := img ! (ip + 1)]) (Suc (Suc p))"
    by (rule filled_step[OF f1]) (use pL s1 in simp_all)
  have f3: "filled img tw L (tiles[p := img ! ip, Suc p := img ! (ip + 1),
      Suc (Suc p) := img ! (ip + 2)]) (Suc (Suc (Suc p)))"
    by (rule filled_step[OF f2]) (use pL s2 in simp_all)
  have f4: "filled img tw L (tiles[p := img ! ip, Suc p := img ! (ip + 1),
      Suc (Suc p) := img ! (ip + 2), Suc (Suc (Suc p)) := img ! (ip + 3)]) (Suc (Suc (Suc (Suc p))))"
    by (rule filled_step[OF f3]) (use pL s3 in simp_all)
  have e: "p + 4 = Suc (Suc (Suc (Suc p)))" by simp
  show ?thesis
    unfolding e using f4 len pL ip
    by (simp add: copy_tile_row_def read_u8_def write_u8_def numeral_3_eq_3)
qed

lemma copy_tile_ok:
  assumes f: "filled img tw L tiles ((ty * tw + tx) * 32)"
    and pL: "(ty * tw + tx) * 32 + 32 \<le> L"
    and tx: "tx < tw"
    and len: "(ty * 8 + 8) * (tw * 4) \<le> length img"
    and pitch: "unat pitch = tw * 4"
    and origin: "unat (((tile_y * 8) * pitch) + (tile_x * 4)) = (ty * 8) * (tw * 4) + tx * 4"
  shows "\<exists>tiles'. copy_tile img pitch tile_y tile_x (tiles, (ty * tw + tx) * 32)
              = Some (tiles', (ty * tw + tx) * 32 + 32)
            \<and> filled img tw L tiles' ((ty * tw + tx) * 32 + 32)"
proof -
  let ?p = "(ty * tw + tx) * 32"
  let ?o = "(ty * 8) * (tw * 4) + tx * 4"
  let ?I = "\<lambda>(k :: u32) (tiles, tp, ip). tp = ?p + 4 * unat k \<and> ip = ?o + unat k * (tw * 4)
              \<and> filled img tw L tiles tp"
  have "\<exists>s'. for_u32 0 8 (\<lambda>tile_row. copy_tile_row img pitch) (tiles, ?p, ?o) = Some s' \<and> ?I 8 s'"
  proof (rule for_u32_total[where I = "?I"])
    show "(0 :: u32) \<le> 8" by simp
    show "?I 0 (tiles, ?p, ?o)" using f by simp
  next
    fix k :: u32 and s assume k: "k < 8" and I: "?I k s"
    obtain tl tp ip where s: "s = (tl, tp, ip)" by (cases s)
    from k have k8: "unat k < 8" by (simp add: word_less_nat_alt)
    from I s have d: "tp = ?p + 4 * unat k" "ip = ?o + unat k * (tw * 4)"
      "filled img tw L tl tp" by auto
    have "\<exists>tiles'. copy_tile_row img pitch (tl, tp, ip) = Some (tiles', tp + 4, ip + unat pitch)
            \<and> filled img tw L tiles' (tp + 4)"
    proof (rule copy_tile_row_ok[OF d(3)])
      show "tp + 4 \<le> L" using d(1) k8 pL by simp
      have "ip + 4 \<le> (ty * 8 + unat k) * (tw * 4) + tw * 4"
        using d(2) tx by (simp add: algebra_simps)
      also have "\<dots> = (ty * 8 + unat k + 1) * (tw * 4)" by (simp add: algebra_simps)
      also have "\<dots> \<le> (ty * 8 + 8) * (tw * 4)"
        using k8 by (intro mult_le_mono1) simp
      finally show "ip + 3 < length img" using len by simp
    next
      fix c :: nat assume c: "c < 4"
      have "tile_src tw (?p + 4 * unat k + c) = (ty * 8 + unat k) * (tw * 4) + tx * 4 + c"
        using tx k8 c by (rule tile_src_at)
      then show "tile_src tw (tp + c) = ip + c" using d by (simp add: algebra_simps)
    qed
    then show "\<exists>s'. copy_tile_row img pitch s = Some s' \<and> ?I (k + 1) s'"
      using s d pitch unat_inc[OF k] by (auto simp: algebra_simps)
  qed
  then obtain tl tp ip where r: "for_u32 0 8 (\<lambda>tile_row. copy_tile_row img pitch) (tiles, ?p, ?o)
      = Some (tl, tp, ip)" and I: "?I 8 (tl, tp, ip)" by auto
  from I have "tp = ?p + 32" "filled img tw L tl (?p + 32)" by auto
  with r show ?thesis by (simp add: copy_tile_def origin)
qed

text \<open>The 32-bit products and sums of the extractor, when the byte count fits 32 bits.\<close>

lemma unat_mult_small: "unat a * unat b < 2 ^ 32 \<Longrightarrow> unat (a * b :: u32) = unat a * unat b"
  using unat_mult_lem[of a b] by simp

lemma unat_add_small: "unat a + unat b < 2 ^ 32 \<Longrightarrow> unat (a + b :: u32) = unat a + unat b"
  using unat_add_lem[of a b] by simp

lemma unat_div8: "unat (w div 8 :: u32) = unat w div 8"
  by (simp add: unat_div)

lemma unat_div8_less: "unat (w :: u32) div 8 < 2 ^ 29"
proof -
  have "unat w < 2 ^ 32" using unsigned_less[of w] by simp
  then show ?thesis by simp
qed

lemma unat_pitch: "unat ((w div 8) * 4 :: u32) = unat w div 8 * 4"
proof -
  have "unat (w div 8) * unat (4 :: u32) < 2 ^ 32"
    using unat_div8_less[of w] by (simp add: unat_div8)
  then show ?thesis by (simp add: unat_mult_small unat_div8)
qed

lemma unat_origin:
  fixes tile_y tile_x w h :: u32
  assumes y: "tile_y < h div 8" and x: "tile_x < w div 8"
    and L: "unat w div 8 * (unat h div 8) * 32 < 2 ^ 32"
  shows "unat (((tile_y * 8) * ((w div 8) * 4)) + (tile_x * 4))
           = (unat tile_y * 8) * (unat w div 8 * 4) + unat tile_x * 4"
proof -
  let ?tw = "unat w div 8" and ?th = "unat h div 8"
  from y have ty: "unat tile_y < ?th" by (simp add: word_less_nat_alt unat_div8)
  from x have tx: "unat tile_x < ?tw" by (simp add: word_less_nat_alt unat_div8)
  have "(unat tile_y * 8) * (?tw * 4) + ?tw * 4 \<le> (unat tile_y + 1) * (?tw * 32)"
    by (simp add: algebra_simps)
  also have "\<dots> \<le> ?th * (?tw * 32)" using ty by (intro mult_le_mono1) simp
  finally have b: "(unat tile_y * 8) * (?tw * 4) + ?tw * 4 < 2 ^ 32" using L
    by (simp add: algebra_simps)
  have y8: "unat (tile_y * 8) = unat tile_y * 8"
    using ty unat_div8_less[of h] by (simp add: unat_mult_small)
  have x4: "unat (tile_x * 4) = unat tile_x * 4"
    using tx unat_div8_less[of w] by (simp add: unat_mult_small)
  have "unat (tile_y * 8) * unat ((w div 8) * 4) < 2 ^ 32"
    unfolding y8 unat_pitch by (rule le_less_trans[OF _ b]) simp
  then have "unat ((tile_y * 8) * ((w div 8) * 4)) = unat (tile_y * 8) * unat ((w div 8) * 4)"
    by (rule unat_mult_small)
  then have yp: "unat ((tile_y * 8) * ((w div 8) * 4)) = (unat tile_y * 8) * (?tw * 4)"
    unfolding y8 unat_pitch .
  have "unat ((tile_y * 8) * ((w div 8) * 4)) + unat (tile_x * 4) < 2 ^ 32"
    unfolding yp x4 using b tx by linarith
  then have "unat (((tile_y * 8) * ((w div 8) * 4)) + (tile_x * 4))
      = unat ((tile_y * 8) * ((w div 8) * 4)) + unat (tile_x * 4)"
    by (rule unat_add_small)
  then show ?thesis unfolding yp x4 .
qed

lemma unat_tiles_size:
  fixes w h :: u32
  assumes L: "unat w div 8 * (unat h div 8) * 32 < 2 ^ 32"
  shows "unat ((w div 8) * (h div 8) * 32) = unat w div 8 * (unat h div 8) * 32"
proof -
  have "unat (w div 8) * unat (h div 8) < 2 ^ 32"
    unfolding unat_div8 by (rule le_less_trans[OF _ L]) simp
  then have "unat ((w div 8) * (h div 8)) = unat (w div 8) * unat (h div 8)"
    by (rule unat_mult_small)
  then have wh: "unat ((w div 8) * (h div 8)) = unat w div 8 * (unat h div 8)"
    unfolding unat_div8 .
  have "unat ((w div 8) * (h div 8)) * unat (32 :: u32) < 2 ^ 32"
    unfolding wh using L by simp
  then have "unat ((w div 8) * (h div 8) * 32) = unat ((w div 8) * (h div 8)) * unat (32 :: u32)"
    by (rule unat_mult_small)
  then show ?thesis unfolding wh by simp
qed

lemma tile_loops_ok:
  fixes w h :: u32
  defines "tw \<equiv> unat w div 8" and "th \<equiv> unat h div 8"
  assumes L: "tw * th * 32 < 2 ^ 32" and len: "tw * th * 32 \<le> length img"
    and tl: "length tiles = tw * th * 32"
  shows "for_u32 0 (h div 8)
           (\<lambda>tile_y. for_u32 0 (w div 8) (\<lambda>tile_x. copy_tile img ((w div 8) * 4) tile_y tile_x))
           (tiles, 0) = Some (tiled img tw th, tw * th * 32)"
proof -
  let ?L = "tw * th * 32"
  let ?pitch = "(w div 8) * 4 :: u32"
  let ?row = "\<lambda>tile_y. for_u32 0 (w div 8) (\<lambda>tile_x. copy_tile img ?pitch tile_y tile_x)"
  let ?I = "\<lambda>(k :: u32) (tiles, tp). tp = unat k * tw * 32 \<and> filled img tw ?L tiles tp"
  have pitch: "unat ?pitch = tw * 4" unfolding tw_def by (rule unat_pitch)
  have "\<exists>s'. for_u32 0 (h div 8) ?row (tiles, 0) = Some s' \<and> ?I (h div 8) s'"
  proof (rule for_u32_total[where I = "?I"])
    show "(0 :: u32) \<le> h div 8" by simp
    show "?I 0 (tiles, 0)" using tl by (simp add: filled_def)
  next
    fix tile_y :: u32 and s assume y: "tile_y < h div 8" and I: "?I tile_y s"
    obtain tl0 tp0 where s: "s = (tl0, tp0)" by (cases s)
    let ?ty = "unat tile_y"
    from y have ty: "?ty < th" by (simp add: word_less_nat_alt unat_div8 th_def)
    from I s have d0: "tp0 = ?ty * tw * 32" "filled img tw ?L tl0 tp0" by auto
    have rowL: "(?ty + 1) * tw * 32 \<le> ?L"
    proof -
      have "(?ty + 1) * (tw * 32) \<le> th * (tw * 32)" using ty by (intro mult_le_mono1) simp
      then show ?thesis by (simp add: algebra_simps)
    qed
    let ?J = "\<lambda>(k :: u32) (tiles, tp). tp = (?ty * tw + unat k) * 32 \<and> filled img tw ?L tiles tp"
    have "\<exists>s'. ?row tile_y (tl0, tp0) = Some s' \<and> ?J (w div 8) s'"
    proof (rule for_u32_total[where I = "?J"])
      show "(0 :: u32) \<le> w div 8" by simp
      show "?J 0 (tl0, tp0)" using d0 by simp
    next
      fix tile_x :: u32 and s assume x: "tile_x < w div 8" and J: "?J tile_x s"
      obtain tl1 tp1 where s: "s = (tl1, tp1)" by (cases s)
      let ?tx = "unat tile_x"
      from x have tx: "?tx < tw" by (simp add: word_less_nat_alt unat_div8 tw_def)
      from J s have d1: "tp1 = (?ty * tw + ?tx) * 32" "filled img tw ?L tl1 tp1" by auto
      have "\<exists>tiles'. copy_tile img ?pitch tile_y tile_x (tl1, (?ty * tw + ?tx) * 32)
              = Some (tiles', (?ty * tw + ?tx) * 32 + 32)
            \<and> filled img tw ?L tiles' ((?ty * tw + ?tx) * 32 + 32)"
      proof (rule copy_tile_ok[OF _ _ tx _ pitch])
        show "filled img tw ?L tl1 ((?ty * tw + ?tx) * 32)" using d1 by simp
        have "(?ty * tw + ?tx) * 32 + 32 \<le> (?ty + 1) * tw * 32" using tx by (simp add: algebra_simps)
        with rowL show "(?ty * tw + ?tx) * 32 + 32 \<le> ?L" by simp
        have "(?ty * 8 + 8) * (tw * 4) = (?ty + 1) * tw * 32" by (simp add: algebra_simps)
        with rowL len show "(?ty * 8 + 8) * (tw * 4) \<le> length img" by simp
        show "unat (((tile_y * 8) * ?pitch) + (tile_x * 4)) = (?ty * 8) * (tw * 4) + ?tx * 4"
          unfolding tw_def using y x L[unfolded tw_def th_def] by (rule unat_origin)
      qed
      then show "\<exists>s'. copy_tile img ?pitch tile_y tile_x s = Some s' \<and> ?J (tile_x + 1) s'"
        using s d1 unat_inc[OF x] by (auto simp: algebra_simps)
    qed
    then show "\<exists>s'. ?row tile_y s = Some s' \<and> ?I (tile_y + 1) s'"
      using s unat_inc[OF y] by (auto simp: unat_div8 tw_def algebra_simps)
  qed
  then obtain tl1 tp1 where r: "for_u32 0 (h div 8) ?row (tiles, 0) = Some (tl1, tp1)"
    and I: "?I (h div 8) (tl1, tp1)" by auto
  from I have tp: "tp1 = ?L" and f: "filled img tw ?L tl1 ?L"
    by (auto simp: unat_div8 th_def algebra_simps)
  from f have "take (length tl1) tl1 = tiled img tw th" by (simp add: filled_def tiled_def)
  then have "tl1 = tiled img tw th" by simp
  with r tp show ?thesis by simp
qed

lemma image_4bpp_to_tile_granted:
  fixes w h :: u32
  assumes L: "unat w div 8 * (unat h div 8) * 32 < 2 ^ 32"
    and len: "unat w div 8 * (unat h div 8) * 32 \<le> length img"
    and m: "malloc (unat w div 8 * (unat h div 8) * 32)"
  shows "image_4bpp_to_tile malloc img w h = Some (Some (tiled img (unat w div 8) (unat h div 8)))"
proof -
  have "for_u32 0 (h div 8)
           (\<lambda>tile_y. for_u32 0 (w div 8) (\<lambda>tile_x. copy_tile img ((w div 8) * 4) tile_y tile_x))
           (fresh (unat w div 8 * (unat h div 8) * 32), 0)
          = Some (tiled img (unat w div 8) (unat h div 8), unat w div 8 * (unat h div 8) * 32)"
    using L len by (rule tile_loops_ok) (simp add: fresh_def)
  then show ?thesis using m by (simp add: image_4bpp_to_tile_def Let_def unat_tiles_size[OF L])
qed

text \<open>What a run of the extractor that returned a buffer tells about the sizes.\<close>

lemma copy_tile_row_Some:
  assumes "copy_tile_row img pitch (tiles, tp, ip) = Some (tiles', tp', ip')"
  shows "tp' = tp + 4 \<and> length tiles' = length tiles \<and> tp + 4 \<le> length tiles"
  using assms
  by (auto simp: copy_tile_row_def read_u8_def write_u8_def split: Option.bind_splits if_splits)

lemma copy_tile_Some:
  assumes "copy_tile img pitch tile_y tile_x (tiles, tp) = Some (tiles', tp')"
  shows "tp' = tp + 32 \<and> length tiles' = length tiles \<and> tp' \<le> length tiles"
proof -
  let ?I = "\<lambda>(k :: u32) (tl, p, ip :: nat). p = tp + 4 * unat k \<and> length tl = length tiles \<and> p \<le> length tiles"
  from assms obtain ip' where r: "for_u32 0 8 (\<lambda>tile_row. copy_tile_row img pitch)
      (tiles, tp, unat (((tile_y * 8) * pitch) + (tile_x * 4))) = Some (tiles', tp', ip')"
    by (auto simp: copy_tile_def split: Option.bind_splits)
  have "?I 8 (tiles', tp', ip')"
  proof (rule for_u32_partial[OF r, where I = "?I"])
    show "(0 :: u32) \<le> 8" by simp
    show "?I 0 (tiles, tp, unat (((tile_y * 8) * pitch) + (tile_x * 4)))"
      using r by (subst (asm) for_u32.simps) (auto dest: copy_tile_row_Some split: option.splits)
  next
    fix k :: u32 and s s' assume k: "k < 8" and I: "?I k s"
      and b: "copy_tile_row img pitch s = Some s'"
    obtain tl p ip where s: "s = (tl, p, ip)" by (cases s)
    obtain tl1 p1 ip1 where s': "s' = (tl1, p1, ip1)" by (cases s')
    from copy_tile_row_Some[OF b[unfolded s s']] I s s' unat_inc[OF k]
    show "?I (k + 1) s'" by auto
  qed
  then show ?thesis by simp
qed

lemma tile_loops_Some:
  fixes tile_width tile_height :: u32
  assumes r: "for_u32 0 tile_height
           (\<lambda>tile_y. for_u32 0 tile_width (\<lambda>tile_x. copy_tile img pitch tile_y tile_x))
           (tiles, 0) = Some (tiles', tp')"
  shows "tp' = unat tile_height * unat tile_width * 32 \<and> tp' \<le> length tiles"
proof -
  let ?I = "\<lambda>(k :: u32) (tl :: u8 list, p). p = unat k * unat tile_width * 32
      \<and> length tl = length tiles \<and> p \<le> length tiles"
  have "?I tile_height (tiles', tp')"
  proof (rule for_u32_partial[OF r, where I = "?I"])
    show "(0 :: u32) \<le> tile_height" by simp
    show "?I 0 (tiles, 0)" by simp
  next
    fix tile_y :: u32 and s s' assume y: "tile_y < tile_height" and I: "?I tile_y s"
      and b: "for_u32 0 tile_width (\<lambda>tile_x. copy_tile img pitch tile_y tile_x) s = Some s'"
    obtain tl p where s: "s = (tl, p)" by (cases s)
    let ?J = "\<lambda>(k :: u32) (tl :: u8 list, q). q = p + unat k * 32
      \<and> length tl = length tiles \<and> q \<le> length tiles"
    have "?J tile_width s'"
    proof (rule for_u32_partial[OF b, where I = "?J"])
      show "(0 :: u32) \<le> tile_width" by simp
      show "?J 0 s" using I s by simp
    next
      fix tile_x :: u32 and t t' assume x: "tile_x < tile_width" and J: "?J tile_x t"
        and c: "copy_tile img pitch tile_y tile_x t = Some t'"
      obtain tl0 q0 where t: "t = (tl0, q0)" by (cases t)
      obtain tl1 q1 where t': "t' = (tl1, q1)" by (cases t')
      from copy_tile_Some[OF c[unfolded t t']] J t t' unat_inc[OF x]
      show "?J (tile_x + 1) t'" by auto
    qed
    with I s unat_inc[OF y] show "?I (tile_y + 1) s'"
      by (auto simp: algebra_simps)
  qed
  then show ?thesis by simp
qed

lemma image_4bpp_to_tile_Some:
  fixes w h :: u32
  assumes r: "image_4bpp_to_tile malloc img w h = Some (Some T)"
  shows "unat w div 8 * (unat h div 8) * 32 < 2 ^ 32
       \<and> malloc (unat w div 8 * (unat h div 8) * 32)"
proof -
  let ?n = "unat ((w div 8) * (h div 8) * 32)"
  from r have m: "malloc ?n"
    by (auto simp: image_4bpp_to_tile_def Let_def split: if_splits)
  with r obtain tp where l: "for_u32 0 (h div 8)
           (\<lambda>tile_y. for_u32 0 (w div 8) (\<lambda>tile_x. copy_tile img ((w div 8) * 4) tile_y tile_x))
           (fresh ?n, 0) = Some (T, tp)"
    by (auto simp: image_4bpp_to_tile_def Let_def split: Option.bind_splits)
  from tile_loops_Some[OF l]
  have "unat (h div 8) * unat (w div 8) * 32 \<le> ?n" by (simp add: fresh_def)
  moreover have "?n < 2 ^ 32" using unsigned_less[of "(w div 8) * (h div 8) * 32"] by simp
  ultimately have L: "unat w div 8 * (unat h div 8) * 32 < 2 ^ 32"
    by (simp add: unat_div8 mult.commute)
  from m show ?thesis using L unat_tiles_size[OF L] by simp
qed

section \<open>Claims on the Tile Extractor\<close>



lemma packed_size: "8 dvd (w :: nat) \<Longrightarrow> 8 dvd h \<Longrightarrow> w * h div 2 = w div 8 * (h div 8) * 32"
  by (auto simp: dvd_def)




lemma tile_src_bij:
  "bij_betw (tile_src tw) {..<tw * th * 32} {..<tw * th * 32}"
proof -
  have inj: "inj_on (tile_src tw) {..<tw * th * 32}"
    by (rule inj_on_inverseI[where g = "tile_dst tw"]) (simp add: tile_dst_src)
  have sub: "tile_src tw ` {..<tw * th * 32} \<subseteq> {..<tw * th * 32}"
    by (auto simp: tile_src_less)
  have "tile_src tw ` {..<tw * th * 32} = {..<tw * th * 32}"
    using finite_lessThan sub inj by (rule endo_inj_surj)
  with inj show ?thesis by (simp add: bij_betw_def)
qed

lemma tiled_untiled:
  assumes "length tiles = tw * th * 32" and "unat width div 8 = tw"
  shows "tiled (tiles_to_image_4bpp tiles width) tw th = tiles"
proof (rule nth_equalityI)
  show "length (tiled (tiles_to_image_4bpp tiles width) tw th) = length tiles"
    using assms by (simp add: tiled_def)
next
  fix j assume "j < length (tiled (tiles_to_image_4bpp tiles width) tw th)"
  then have j: "j < tw * th * 32" by (simp add: tiled_def)
  then have s: "tile_src tw j < length tiles" using assms(1) by (simp add: tile_src_less)
  have "tiled (tiles_to_image_4bpp tiles width) tw th ! j
      = tiles_to_image_4bpp tiles width ! tile_src tw j"
    using j unfolding tiled_def by (simp only: nth_map length_upt diff_zero nth_upt add_0)
  also have "\<dots> = tiles ! tile_dst tw (tile_src tw j)"
    using s unfolding tiles_to_image_4bpp_def assms(2)
    by (simp only: nth_map length_upt diff_zero nth_upt add_0)
  also have "\<dots> = tiles ! j" using j by (simp only: tile_dst_src)
  finally show "tiled (tiles_to_image_4bpp tiles width) tw th ! j = tiles ! j" .
qed

text \<open>
  Claim C5. For every 4bpp image whose width and height are multiples of 8 and from which
  the extractor has returned a tiles buffer: putting that buffer back into raster order
  (\<open>tiles_to_image_4bpp\<close>, the inverse the specification describes) and extracting
  again returns the same tiles buffer, when that second \<^verbatim>\<open>malloc\<close> is granted. And the
  extraction reorders the bytes of the image by a bijection: byte \<open>j\<close> of the tiles is
  byte \<open>tile_src tw j\<close> of the image, \<open>tile_src tw\<close> is a bijection on the offsets,
  and the two buffers hold the same bytes with the same multiplicities.
\<close>

theorem tile_round_trip:
  fixes width height :: u32
  assumes run: "image_4bpp_to_tile malloc img width height = Some (Some tiles)"
    and w: "8 dvd unat width" and h: "8 dvd unat height"
    and len: "length img = unat width * unat height div 2"
    and again: "malloc' (length tiles)"
  shows "image_4bpp_to_tile malloc' (tiles_to_image_4bpp tiles width) width height
           = Some (Some tiles)
       \<and> length tiles = length img
       \<and> bij_betw (tile_src (unat width div 8)) {..<length img} {..<length img}
       \<and> (\<forall>j < length img. tiles ! j = img ! tile_src (unat width div 8) j)
       \<and> mset tiles = mset img"
proof -
  let ?tw = "unat width div 8" and ?th = "unat height div 8"
  let ?L = "?tw * ?th * 32"
  have L: "length img = ?L" using len packed_size[OF w h] by simp
  from image_4bpp_to_tile_Some[OF run] have fits: "?L < 2 ^ 32" and m: "malloc ?L" by simp_all
  have "image_4bpp_to_tile malloc img width height = Some (Some (tiled img ?tw ?th))"
    using fits _ m by (rule image_4bpp_to_tile_granted) (simp add: L)
  with run have tiles: "tiles = tiled img ?tw ?th" by simp
  then have lt: "length tiles = ?L" by (simp add: tiled_def)
  have "image_4bpp_to_tile malloc' (tiles_to_image_4bpp tiles width) width height
      = Some (Some (tiled (tiles_to_image_4bpp tiles width) ?tw ?th))"
    using fits _ again[unfolded lt]
    by (rule image_4bpp_to_tile_granted) (simp add: tiles_to_image_4bpp_def lt)
  then have 1: "image_4bpp_to_tile malloc' (tiles_to_image_4bpp tiles width) width height
      = Some (Some tiles)"
    by (simp only: tiled_untiled[OF lt refl])
  have 2: "length tiles = length img" using lt L by simp
  have 3: "bij_betw (tile_src ?tw) {..<length img} {..<length img}"
    unfolding L by (rule tile_src_bij)
  have 4: "\<forall>j < length img. tiles ! j = img ! tile_src ?tw j"
    unfolding tiles L tiled_def by (simp del: upt_Suc)
  have "mset tiles = image_mset (\<lambda>j. img ! j) (image_mset (tile_src ?tw) (mset [0..<?L]))"
    unfolding tiles tiled_def by (simp add: image_mset.compositionality comp_def del: upt_Suc mset_upt)
  also have "image_mset (tile_src ?tw) (mset [0..<?L]) = mset [0..<?L]"
  proof -
    have "image_mset (tile_src ?tw) (mset_set {..<?L}) = mset_set (tile_src ?tw ` {..<?L})"
      using tile_src_bij[of ?tw ?th] by (intro image_mset_mset_set) (simp add: bij_betw_def)
    also have "tile_src ?tw ` {..<?L} = {..<?L}" using tile_src_bij[of ?tw ?th] by (simp add: bij_betw_def)
    finally show ?thesis by (simp add: lessThan_atLeast0)
  qed
  also have "image_mset (\<lambda>j. img ! j) (mset [0..<?L]) = mset img"
    unfolding L[symmetric] by (metis map_nth mset_map)
  finally have 5: "mset tiles = mset img" .
  from 1 2 3 4 5 show ?thesis by blast
qed

text \<open>Witness for C5: the 16 by 8 ramp, whose extraction is not the identity.\<close>

theorem tile_round_trip_witness:
  "image_4bpp_to_tile malloc_succeeds ramp_16x8 16 8 = Some (Some (tiled ramp_16x8 2 1))
   \<and> 8 dvd unat (16 :: u32) \<and> 8 dvd unat (8 :: u32)
   \<and> length ramp_16x8 = unat (16 :: u32) * unat (8 :: u32) div 2
   \<and> malloc_succeeds (length (tiled ramp_16x8 2 1))
   \<and> take 8 (tiled ramp_16x8 2 1) = [0, 1, 2, 3, 8, 9, 10, 11]
   \<and> image_4bpp_to_tile malloc_succeeds (tiles_to_image_4bpp (tiled ramp_16x8 2 1) 16) 16 8
        = Some (Some (tiled ramp_16x8 2 1))
   \<and> mset (tiled ramp_16x8 2 1) = mset ramp_16x8"
proof -
  have 1: "image_4bpp_to_tile malloc_succeeds ramp_16x8 16 8 = Some (Some (tiled ramp_16x8 2 1))"
    by code_simp
  have 2: "8 dvd unat (16 :: u32)" and 3: "8 dvd unat (8 :: u32)" by simp_all
  have 4: "length ramp_16x8 = unat (16 :: u32) * unat (8 :: u32) div 2"
    by (simp add: ramp_16x8_def)
  have 5: "malloc_succeeds (length (tiled ramp_16x8 2 1))" by (simp add: malloc_succeeds_def)
  have 6: "take 8 (tiled ramp_16x8 2 1) = [0, 1, 2, 3, 8, 9, 10, 11]" by code_simp
  from tile_round_trip[where malloc = malloc_succeeds and malloc' = malloc_succeeds
      and img = ramp_16x8 and width = 16 and height = 8, OF 1 2 3 4 5]
  have "image_4bpp_to_tile malloc_succeeds (tiles_to_image_4bpp (tiled ramp_16x8 2 1) 16) 16 8
        = Some (Some (tiled ramp_16x8 2 1))"
    and "mset (tiled ramp_16x8 2 1) = mset ramp_16x8" by simp_all
  with 1 2 3 4 5 6 show ?thesis by simp
qed

text \<open>
  Counterexample to C6 as stated: the 16 by 8 image of zero pixels has two tiles, and
  the extractor returns 64 bytes for it, not 32.
\<close>

theorem zero_16x8_is_64_bytes_counterexample:
  "image_4bpp_to_tile malloc_succeeds (image_data png_16x8_zero) (image_width png_16x8_zero)
      (image_height png_16x8_zero) = Some (Some (replicate 64 0))
   \<and> length (replicate 64 (0 :: u8)) \<noteq> 32"
  by code_simp

text \<open>
  Claim C6, as amended. For the single 16 by 8, 4-colour, 4bpp indexed image whose pixels
  are all zero (64 bytes), the extractor returns a buffer of 64 zero bytes, and
  \<^verbatim>\<open>tileset_read\<close> records that buffer with a size of 2 tiles.
\<close>

theorem zero_16x8_extracts_to_64_zero_bytes:
  "length (image_data png_16x8_zero) = 64
   \<and> image_4bpp_to_tile malloc_succeeds (image_data png_16x8_zero) 16 8
       = Some (Some (replicate 64 0))
   \<and> tileset_read ''.'' ''zero.png'' png_16x8_zero 0 tilesets_zero
       = Some (0,
               tilesets_zero[0 := \<lparr>ts_file = ''zero.png'', ts_name = ''zero'', ts_size_define = [],
                                   ts_data = Some (replicate 64 0), ts_size = 2\<rparr>],
               [Printf ''File %s\<newline>'' [S ''./zero.png'']])"
  by code_simp

section \<open>Claims on the Depth Normalizer\<close>

lemma packed_nth:
  "i < n \<Longrightarrow> packed img n ! i = push_bit 4 (img ! (2 * i) AND 0x0F) OR (img ! (2 * i + 1) AND 0x0F)"
  unfolding packed_def by (simp add: pack_eq del: upt_Suc)

lemma packed_cong:
  assumes "\<forall>j < 2 * n. img' ! j AND 0x0F = img ! j AND 0x0F"
  shows "packed img' n = packed img n"
proof (rule nth_equalityI)
  show "length (packed img' n) = length (packed img n)" by (simp add: packed_def)
next
  fix i assume "i < length (packed img' n)"
  then have i: "i < n" by (simp add: packed_def)
  then have "img' ! (2 * i) AND 0x0F = img ! (2 * i) AND 0x0F"
    and "img' ! (2 * i + 1) AND 0x0F = img ! (2 * i + 1) AND 0x0F"
    using assms by simp_all
  then show "packed img' n ! i = packed img n ! i" using i by (simp only: packed_nth)
qed

text \<open>
  Claim C3. For every input buffer of length \<open>N\<close> and every index \<open>i\<close> below
  \<open>N/2\<close>, \<^verbatim>\<open>image_to_4bpp\<close> (when its \<^verbatim>\<open>malloc\<close> is granted) returns a buffer of
  \<open>N/2\<close> bytes whose byte \<open>i\<close> is \<open>((src[2i] & 0x0F) << 4) | (src[2i+1] & 0x0F)\<close>,
  and only the low nibble of each source byte matters: a buffer with the same low
  nibbles gives the same output. The statement needs no evenness of \<open>N\<close>, so it holds
  for every even \<open>N\<close>.
\<close>

theorem image_to_4bpp_packs_low_nibbles:
  assumes len: "length img = unat sz" and granted: "malloc (unat sz div 2)"
  shows "\<exists>out. image_to_4bpp malloc img sz = Some (Some out)
      \<and> length out = unat sz div 2
      \<and> (\<forall>i < unat sz div 2.
            out ! i = push_bit 4 (img ! (2 * i) AND 0x0F) OR (img ! (2 * i + 1) AND 0x0F))
      \<and> (\<forall>img'. length img' = unat sz \<and> (\<forall>j < unat sz. img' ! j AND 0x0F = img ! j AND 0x0F)
            \<longrightarrow> image_to_4bpp malloc img' sz = Some (Some out))"
proof -
  let ?n = "unat sz div 2"
  have 1: "image_to_4bpp malloc img sz = Some (Some (packed img ?n))"
    using granted len by (intro image_to_4bpp_granted) simp_all
  have 2: "length (packed img ?n) = ?n" by (simp add: packed_def)
  have 3: "\<forall>i < ?n. packed img ?n ! i
      = push_bit 4 (img ! (2 * i) AND 0x0F) OR (img ! (2 * i + 1) AND 0x0F)"
    by (simp add: packed_nth)
  have 4: "image_to_4bpp malloc img' sz = Some (Some (packed img ?n))"
    if l: "length img' = unat sz" and n: "\<forall>j < unat sz. img' ! j AND 0x0F = img ! j AND 0x0F"
    for img'
  proof -
    have "image_to_4bpp malloc img' sz = Some (Some (packed img' ?n))"
      using granted l by (intro image_to_4bpp_granted) simp_all
    moreover have "packed img' ?n = packed img ?n"
      using n by (intro packed_cong) auto
    ultimately show ?thesis by simp
  qed
  from 1 2 3 4 show ?thesis by blast
qed

text \<open>
  Witness for C3: four bytes with the nibbles \<open>0x0\<close> and \<open>0xF\<close> among them, and a
  second buffer that differs in the high nibbles only.
\<close>

theorem image_to_4bpp_packs_low_nibbles_witness:
  "length [0xAB, 0xCD, 0xF0, 0x0F :: u8] = unat (4 :: u32)
   \<and> malloc_succeeds (unat (4 :: u32) div 2)
   \<and> image_to_4bpp malloc_succeeds [0xAB, 0xCD, 0xF0, 0x0F] 4 = Some (Some [0xBD, 0x0F])
   \<and> image_to_4bpp malloc_succeeds [0x0B, 0x0D, 0x00, 0xFF] 4 = Some (Some [0xBD, 0x0F])"
proof -
  have 1: "length [0xAB, 0xCD, 0xF0, 0x0F :: u8] = unat (4 :: u32)" by simp
  have 2: "malloc_succeeds (unat (4 :: u32) div 2)" by (simp add: malloc_succeeds_def)
  from image_to_4bpp_packs_low_nibbles[where img = "[0xAB, 0xCD, 0xF0, 0x0F]" and sz = 4
      and malloc = malloc_succeeds, OF 1 2]
  obtain out where r: "image_to_4bpp malloc_succeeds [0xAB, 0xCD, 0xF0, 0x0F] 4 = Some (Some out)"
    and l: "length out = unat (4 :: u32) div 2"
    and b: "\<forall>i < unat (4 :: u32) div 2. out ! i
        = push_bit 4 ([0xAB, 0xCD, 0xF0, 0x0F :: u8] ! (2 * i) AND 0x0F)
            OR ([0xAB, 0xCD, 0xF0, 0x0F] ! (2 * i + 1) AND 0x0F)"
    and n: "\<forall>img'. length img' = unat (4 :: u32)
          \<and> (\<forall>j < unat (4 :: u32). img' ! j AND 0x0F = [0xAB, 0xCD, 0xF0, 0x0F :: u8] ! j AND 0x0F)
          \<longrightarrow> image_to_4bpp malloc_succeeds img' 4 = Some (Some out)"
    by blast
  have u: "unat (4 :: u32) div 2 = 2" by simp
  have b0: "out ! 0 = 0xBD" using b[unfolded u, rule_format, of 0] by simp
  have b1: "out ! 1 = 0x0F" using b[unfolded u, rule_format, of 1] by simp
  from l[unfolded u] obtain x y where "out = [x, y]"
    by (auto simp: length_Suc_conv numeral_2_eq_2)
  with b0 b1 have o: "out = [0xBD, 0x0F]" by simp
  have "[0x0B, 0x0D, 0x00, 0xFF :: u8] ! j AND 0x0F = [0xAB, 0xCD, 0xF0, 0x0F :: u8] ! j AND 0x0F"
    if "j < unat (4 :: u32)" for j
  proof -
    from that have "j = 0 \<or> j = 1 \<or> j = 2 \<or> j = 3" by auto
    then show ?thesis by auto
  qed
  with n have "image_to_4bpp malloc_succeeds [0x0B, 0x0D, 0x00, 0xFF] 4 = Some (Some out)"
    by simp
  with 1 2 r o show ?thesis by simp
qed

section \<open>Claims on the per-image pipeline\<close>

text \<open>
  Claim C2 fails on the code: for an 8bpp image \<^verbatim>\<open>tileset_read\<close> passes
  \<^verbatim>\<open>image_width * image_width\<close> to the normalizer, not the size of the pixel buffer.
  For the 8 by 16 image (128 bytes) the normalizer is given \<open>N = 64\<close> and returns 32
  bytes where the claim has 64; the extractor then reads past the end of these 32 bytes.
\<close>

theorem tall_8bpp_image_is_normalized_short:
  "image_width png_8x16_8bpp * image_width png_8x16_8bpp = 64
   \<and> length (image_data png_8x16_8bpp) = 128
   \<and> image_to_4bpp malloc_succeeds (image_data png_8x16_8bpp) 64 = Some (Some (replicate 32 0x11))
   \<and> image_4bpp_to_tile malloc_succeeds (replicate 32 0x11) 8 16 = None
   \<and> tileset_read ''.'' ''tall.png'' png_8x16_8bpp 0 tilesets_zero = None"
  by code_simp

text \<open>
  Claim C8 fails on the code for the extractor: when \<^verbatim>\<open>malloc\<close> fails inside
  \<^verbatim>\<open>image_4bpp_to_tile\<close>, \<^verbatim>\<open>tileset_read\<close> stores the \<^verbatim>\<open>NULL\<close> pointer, prints no
  diagnostic and returns 0; the scan counts the record (second conjunct) and the output
  stage reads through the \<^verbatim>\<open>NULL\<close> pointer, so the run leaves defined behaviour (third
  conjunct). The normalizer's failure (last conjunct) is handled as the claim says.
\<close>

theorem failed_tiles_allocation_is_recorded:
  "tileset_read ''.'' ''tile.png'' png_8x8_4bpp_no_tiles 0 tilesets_zero
       = Some (0,
               tilesets_zero[0 := \<lparr>ts_file = ''tile.png'', ts_name = ''tile'', ts_size_define = [],
                                   ts_data = None, ts_size = 1\<rparr>],
               [Printf ''File %s\<newline>'' [S ''./tile.png'']])
   \<and> read_files ''.'' [tile_png_no_tiles] 0 tilesets_zero []
       = Some (Inr (1,
               tilesets_zero[0 := \<lparr>ts_file = ''tile.png'', ts_name = ''tile'', ts_size_define = [],
                                   ts_data = None, ts_size = 1\<rparr>],
               [Printf ''File %s\<newline>'' [S ''./tile.png''],
                Printf (CHR 0x09 # ''Png file to tiles: %s -> %s\<newline>'')
                  [S ''tile.png'', S ''tile'']]))
   \<and> main fopen_succeeds params_default (Some [tile_png_no_tiles]) png_rgb_65x64 = None
   \<and> tileset_read ''.'' ''tile.png'' png_8x8_8bpp_no_4bpp 0 tilesets_zero
       = Some (1, tilesets_zero, [Printf ''File %s\<newline>'' [S ''./tile.png''], Printf error_4bpp []])"
  by code_simp

section \<open>A complete run\<close>

text \<open>
  A directory with one rejected and one valid image of one tile, no destination name
  given: the run writes \<^verbatim>\<open>tile.h\<close> and \<^verbatim>\<open>tile.c\<close> without a prefix and ends with
  \<^verbatim>\<open>EXIT_SUCCESS\<close>. When neither file can be opened, both attempts are made and the
  run still ends with \<^verbatim>\<open>EXIT_SUCCESS\<close>.
\<close>

lemma main_writes_one_tileset:
  "map_option (\<lambda>(status, out). (status, filter writes_file out))
     (main fopen_succeeds params_default (Some [rgb_png, tile_png]) png_rgb_65x64)
   = Some (EXIT_SUCCESS,
       [Fopen ''./tile.h'',
        Fprintf_file ''/* Generated with tilesettool v0.02                    */\<newline>'' [],
        Fprintf_file ''/* a Sega Megadrive/Genesis image tileset extractor    */\<newline>'' [],
        Fprintf_file ''/* Github: https://github.com/tapule/mdtools             */\<newline>\<newline>'' [],
        Fprintf_file ''#ifndef %s\<newline>'' [S ''TILE_H''],
        Fprintf_file ''#define %s\<newline>\<newline>'' [S ''TILE_H''],
        Fprintf_file ''#include <stdint.h>\<newline>\<newline>'' [],
        Fprintf_file ''#define %s    %d\<newline>'' [S ''TILE_SIZE'', D 1],
        Fprintf_file ''\<newline>'' [],
        Fprintf_file ''extern const uint32_t %s[%s * 8];\<newline>'' [S ''tile'', S ''TILE_SIZE''],
        Fprintf_file ''\<newline>'' [],
        Fprintf_file ''#endif /* %s */\<newline>'' [S ''TILE_H''],
        Fclose,
        Fopen ''./tile.c'',
        Fprintf_file (''#include '' @ [CHR 0x22] @ ''%s'' @ [CHR 0x22] @ ''\<newline>\<newline>'') [S ''tile.h''],
        Fprintf_file ''const uint32_t %s[%s * 8] = {'' [S ''tile'', S ''TILE_SIZE''],
        Fprintf_file ''\<newline>    '' []]
       @ concat (map (\<lambda>row.
            [Fprintf_file ''0x'' [],
             Fprintf_file ''%02X'' [X 33], Fprintf_file ''%02X'' [X 33],
             Fprintf_file ''%02X'' [X 33], Fprintf_file ''%02X'' [X 33]]
            @ (if row < 7 then [Fprintf_file '', '' []] else [])) [0 ..< 8])
       @ [Fprintf_file ''\<newline>};\<newline>\<newline>'' [], Fclose])
   \<and> map_option (\<lambda>(status, out). (status, filter writes_file out))
       (main (\<lambda>path. False) params_default (Some [rgb_png, tile_png]) png_rgb_65x64)
     = Some (EXIT_SUCCESS, [Fopen ''./tile.h'', Fopen ''./tile.c''])"
  by code_simp

section \<open>Facts on \<^verbatim>\<open>tileset_read\<close>\<close>

lemma strrchr_None: "strrchr s c = None \<longleftrightarrow> c \<notin> set s"
  by (induction s) (auto split: option.splits)

lemma strrchr_last: "c \<notin> set ext \<Longrightarrow> strrchr (base @ c # ext) c = Some (length base)"
  by (induction base) (auto simp: strrchr_None[THEN iffD2])

lemma word_mod8: "(w :: u32) mod 8 = 0 \<longleftrightarrow> 8 dvd unat w"
proof -
  have "w mod 8 = 0 \<longleftrightarrow> unat (w mod 8) = 0" by (simp add: unat_eq_0)
  also have "\<dots> \<longleftrightarrow> unat w mod 8 = 0" by (simp add: unat_mod)
  finally show ?thesis by (simp add: dvd_eq_mod_eq_0)
qed

lemma tileset_read_0:
  assumes "tileset_read path file png idx ts = Some (0, ts', out)"
  shows "\<exists>tiles. unat idx < length ts \<and> length file < MAX_FILE_NAME_LENGTH
     \<and> ts' = ts[unat idx := (ts ! unat idx)\<lparr>ts_data := tiles, ts_file := file,
           ts_size := ucast ((image_width png div 8) * (image_height png div 8)),
           ts_name := (case strrchr file (CHR ''.'') of Some i \<Rightarrow> take i file | None \<Rightarrow> file)\<rparr>]
     \<and> out = [Printf ''File %s\<newline>'' [S (path @ ''/'' @ file)]]"
  using assms
  unfolding tileset_read_def Let_def
  by (auto simp: set_tileset_def strcpy_def strcat_def split: Option.bind_splits if_splits option.splits)

lemma tileset_read_length:
  assumes "tileset_read path file png idx ts = Some (rc, ts', out)"
  shows "length ts' = length ts"
  using assms
  unfolding tileset_read_def Let_def
  by (auto simp: set_tileset_def split: Option.bind_splits if_splits option.splits)

lemma tileset_read_writes_no_file:
  assumes "tileset_read path file png idx ts = Some (rc, ts', out)"
  shows "\<forall>e \<in> set out. \<not> writes_file e"
  using assms
  unfolding tileset_read_def Let_def
  by (auto simp: split: Option.bind_splits if_splits option.splits)

lemma tileset_read_status:
  assumes "unat idx < length ts"
  shows "map_option fst (tileset_read path file png idx ts)
       = map_option fst (tileset_read path file png 0 tilesets_zero)"
  using assms
  unfolding tileset_read_def Let_def
  by (auto simp: set_tileset_def tilesets_zero_def MAX_TILESETS_def split: Option.bind_splits if_splits option.splits)

lemma tileset_read_rejected:
  assumes "tileset_read path file png idx ts = Some (rc, ts', out)" and "rc \<noteq> 0"
  shows "ts' = ts"
  using assms
  unfolding tileset_read_def Let_def
  by (auto simp: split: Option.bind_splits if_splits option.splits)

text \<open>The three calls that build \<^verbatim>\<open>file_path\<close>, when the path fits its 1024 bytes.\<close>

lemma file_path_fits:
  assumes "length path + length file + 1 < MAX_PATH_LENGTH"
  shows "(strcpy MAX_PATH_LENGTH path \<bind> (\<lambda>p. strcat MAX_PATH_LENGTH p ''/'' \<bind>
          (\<lambda>p. strcat MAX_PATH_LENGTH p file \<bind> f))) = f (path @ ''/'' @ file)"
  using assms by (simp add: strcpy_def strcat_def)

section \<open>Claims on validation and naming\<close>

text \<open>
  Claim C4. For every decoded image (the file was loaded and decoded, and its path fits
  \<^verbatim>\<open>file_path\<close>), the checks of \<^verbatim>\<open>tileset_read\<close> run in the order colour mode, bit
  depth (4 or 8), palette size (at most 16), width divisible by 8, height divisible by 8:
  the first check that fails decides the outcome whatever the later fields hold, the
  function returns 1 with the catalog unchanged, and exactly one reason is printed after
  the \<^verbatim>\<open>File\<close> line. In particular an image that is not indexed is reported as not
  indexed whatever its dimensions. The five reasons are distinct texts, and an image that
  passes all five checks gets none of them.
\<close>

theorem tileset_read_checks_in_order:
  assumes fits: "length path + length file + 1 < MAX_PATH_LENGTH"
    and loaded: "load_error png = 0" and decoded: "decode_error png = 0"
  shows "(colortype png \<noteq> LCT_PALETTE \<longrightarrow>
            tileset_read path file png tileset_index tilesets
              = Some (1, tilesets, [Printf ''File %s\<newline>'' [S (path @ ''/'' @ file)],
                                    Printf skip_not_indexed []]))
       \<and> (colortype png = LCT_PALETTE \<and> bitdepth png \<noteq> 4 \<and> bitdepth png \<noteq> 8 \<longrightarrow>
            tileset_read path file png tileset_index tilesets
              = Some (1, tilesets, [Printf ''File %s\<newline>'' [S (path @ ''/'' @ file)],
                                    Printf skip_bitdepth []]))
       \<and> (colortype png = LCT_PALETTE \<and> (bitdepth png = 4 \<or> bitdepth png = 8)
            \<and> 16 < unat (palettesize png) \<longrightarrow>
            tileset_read path file png tileset_index tilesets
              = Some (1, tilesets, [Printf ''File %s\<newline>'' [S (path @ ''/'' @ file)],
                                    Printf skip_colors []]))
       \<and> (colortype png = LCT_PALETTE \<and> (bitdepth png = 4 \<or> bitdepth png = 8)
            \<and> unat (palettesize png) \<le> 16 \<and> \<not> 8 dvd unat (image_width png) \<longrightarrow>
            tileset_read path file png tileset_index tilesets
              = Some (1, tilesets, [Printf ''File %s\<newline>'' [S (path @ ''/'' @ file)],
                                    Printf skip_width []]))
       \<and> (colortype png = LCT_PALETTE \<and> (bitdepth png = 4 \<or> bitdepth png = 8)
            \<and> unat (palettesize png) \<le> 16 \<and> 8 dvd unat (image_width png)
            \<and> \<not> 8 dvd unat (image_height png) \<longrightarrow>
            tileset_read path file png tileset_index tilesets
              = Some (1, tilesets, [Printf ''File %s\<newline>'' [S (path @ ''/'' @ file)],
                                    Printf skip_height []]))
       \<and> (colortype png = LCT_PALETTE \<and> (bitdepth png = 4 \<or> bitdepth png = 8)
            \<and> unat (palettesize png) \<le> 16 \<and> 8 dvd unat (image_width png)
            \<and> 8 dvd unat (image_height png) \<longrightarrow>
            (\<forall>r. tileset_read path file png tileset_index tilesets = Some r \<longrightarrow>
               set (snd (snd r)) \<inter> {Printf skip_not_indexed [], Printf skip_bitdepth [],
                  Printf skip_colors [], Printf skip_width [], Printf skip_height []} = {}))
       \<and> distinct [skip_not_indexed, skip_bitdepth, skip_colors, skip_width, skip_height]"
proof -
  have pal: "16 < palettesize png \<longleftrightarrow> 16 < unat (palettesize png)"
    by (simp add: word_less_nat_alt)
  have d: "distinct [skip_not_indexed, skip_bitdepth, skip_colors, skip_width, skip_height]"
    by (simp add: skip_not_indexed_def skip_bitdepth_def skip_colors_def skip_width_def
        skip_height_def)
  have e: "error_4bpp \<notin> {skip_not_indexed, skip_bitdepth, skip_colors, skip_width, skip_height}"
    by (simp add: skip_not_indexed_def skip_bitdepth_def skip_colors_def skip_width_def
        skip_height_def error_4bpp_def)
  note unfold = tileset_read_def file_path_fits[OF fits] Let_def loaded decoded pal
    word_mod8
  have 1: "colortype png \<noteq> LCT_PALETTE \<longrightarrow>
            tileset_read path file png tileset_index tilesets
              = Some (1, tilesets, [Printf ''File %s\<newline>'' [S (path @ ''/'' @ file)],
                                    Printf skip_not_indexed []])"
    unfolding unfold by simp
  have 2: "colortype png = LCT_PALETTE \<and> bitdepth png \<noteq> 4 \<and> bitdepth png \<noteq> 8 \<longrightarrow>
            tileset_read path file png tileset_index tilesets
              = Some (1, tilesets, [Printf ''File %s\<newline>'' [S (path @ ''/'' @ file)],
                                    Printf skip_bitdepth []])"
    unfolding unfold by simp
  have 3: "colortype png = LCT_PALETTE \<and> (bitdepth png = 4 \<or> bitdepth png = 8)
            \<and> 16 < unat (palettesize png) \<longrightarrow>
            tileset_read path file png tileset_index tilesets
              = Some (1, tilesets, [Printf ''File %s\<newline>'' [S (path @ ''/'' @ file)],
                                    Printf skip_colors []])"
    unfolding unfold by auto
  have 4: "colortype png = LCT_PALETTE \<and> (bitdepth png = 4 \<or> bitdepth png = 8)
            \<and> unat (palettesize png) \<le> 16 \<and> \<not> 8 dvd unat (image_width png) \<longrightarrow>
            tileset_read path file png tileset_index tilesets
              = Some (1, tilesets, [Printf ''File %s\<newline>'' [S (path @ ''/'' @ file)],
                                    Printf skip_width []])"
    unfolding unfold by auto
  have 5: "colortype png = LCT_PALETTE \<and> (bitdepth png = 4 \<or> bitdepth png = 8)
            \<and> unat (palettesize png) \<le> 16 \<and> 8 dvd unat (image_width png)
            \<and> \<not> 8 dvd unat (image_height png) \<longrightarrow>
            tileset_read path file png tileset_index tilesets
              = Some (1, tilesets, [Printf ''File %s\<newline>'' [S (path @ ''/'' @ file)],
                                    Printf skip_height []])"
    unfolding unfold by auto
  have 6: "colortype png = LCT_PALETTE \<and> (bitdepth png = 4 \<or> bitdepth png = 8)
            \<and> unat (palettesize png) \<le> 16 \<and> 8 dvd unat (image_width png)
            \<and> 8 dvd unat (image_height png) \<longrightarrow>
            (\<forall>r. tileset_read path file png tileset_index tilesets = Some r \<longrightarrow>
               set (snd (snd r)) \<inter> {Printf skip_not_indexed [], Printf skip_bitdepth [],
                  Printf skip_colors [], Printf skip_width [], Printf skip_height []} = {})"
    unfolding unfold using e
    by (auto split: Option.bind_splits option.splits if_splits)
  from 1 2 3 4 5 6 d show ?thesis by blast
qed

text \<open>
  Witness for C4: an RGB image of 65 by 64 pixels, not indexed and with a width that is
  no multiple of 8, is reported as not indexed.
\<close>

theorem tileset_read_checks_in_order_witness:
  "length ''pngs'' + length ''rgb.png'' + 1 < MAX_PATH_LENGTH
   \<and> load_error png_rgb_65x64 = 0 \<and> decode_error png_rgb_65x64 = 0
   \<and> colortype png_rgb_65x64 \<noteq> LCT_PALETTE \<and> \<not> 8 dvd unat (image_width png_rgb_65x64)
   \<and> tileset_read ''pngs'' ''rgb.png'' png_rgb_65x64 0 tilesets_zero
        = Some (1, tilesets_zero, [Printf ''File %s\<newline>'' [S ''pngs/rgb.png''],
                                   Printf skip_not_indexed []])"
proof -
  have 1: "length ''pngs'' + length ''rgb.png'' + 1 < MAX_PATH_LENGTH"
    by (simp add: MAX_PATH_LENGTH_def)
  have 2: "load_error png_rgb_65x64 = 0" and 3: "decode_error png_rgb_65x64 = 0"
    by (simp_all add: png_rgb_65x64_def)
  have 4: "colortype png_rgb_65x64 \<noteq> LCT_PALETTE" by (simp add: png_rgb_65x64_def)
  have 5: "\<not> 8 dvd unat (image_width png_rgb_65x64)" by (simp add: png_rgb_65x64_def)
  from tileset_read_checks_in_order[of "''pngs''" "''rgb.png''" png_rgb_65x64 0 tilesets_zero,
      OF 1 2 3] 4
  have "tileset_read ''pngs'' ''rgb.png'' png_rgb_65x64 0 tilesets_zero
        = Some (1, tilesets_zero, [Printf ''File %s\<newline>'' [S (''pngs'' @ ''/'' @ ''rgb.png'')],
                                   Printf skip_not_indexed []])"
    by blast
  with 1 2 3 4 5 show ?thesis by simp
qed

text \<open>
  Claim C9. For every file that \<^verbatim>\<open>tileset_read\<close> has processed (it returned 0), the
  name recorded in the catalog is the file name cut at its last \<^verbatim>\<open>'.'\<close> only: a name
  \<open>base.ext\<close> whose \<open>ext\<close> has no dot yields \<open>base\<close>, further dots in \<open>base\<close>
  are kept, and a name without a dot is recorded unchanged.
\<close>

theorem tileset_name_strips_last_suffix:
  assumes ok: "tileset_read path file png tileset_index tilesets = Some (0, tilesets', out)"
  shows "(\<forall>base ext. file = base @ ''.'' @ ext \<and> CHR ''.'' \<notin> set ext
            \<longrightarrow> ts_name (tilesets' ! unat tileset_index) = base)
       \<and> (CHR ''.'' \<notin> set file \<longrightarrow> ts_name (tilesets' ! unat tileset_index) = file)"
proof -
  from tileset_read_0[OF ok] obtain tiles where i: "unat tileset_index < length tilesets"
    and t: "tilesets' = tilesets[unat tileset_index := (tilesets ! unat tileset_index)
           \<lparr>ts_data := tiles, ts_file := file,
            ts_size := ucast ((image_width png div 8) * (image_height png div 8)),
            ts_name := (case strrchr file (CHR ''.'') of Some i \<Rightarrow> take i file | None \<Rightarrow> file)\<rparr>]"
    by blast
  have n: "ts_name (tilesets' ! unat tileset_index)
      = (case strrchr file (CHR ''.'') of Some i \<Rightarrow> take i file | None \<Rightarrow> file)"
    unfolding t using i by simp
  have 1: "ts_name (tilesets' ! unat tileset_index) = base"
    if "file = base @ ''.'' @ ext" and "CHR ''.'' \<notin> set ext" for base ext
    unfolding n using that by (simp add: strrchr_last)
  have 2: "ts_name (tilesets' ! unat tileset_index) = file" if "CHR ''.'' \<notin> set file"
    unfolding n using that by (simp add: strrchr_None[THEN iffD2])
  from 1 2 show ?thesis by blast
qed

text \<open>
  Witness for C9: \<^verbatim>\<open>a.b.png\<close> is recorded as \<^verbatim>\<open>a.b\<close>, and \<^verbatim>\<open>README\<close> as it is.
\<close>

theorem tileset_name_strips_last_suffix_witness:
  "tileset_read ''.'' ''a.b.png'' png_16x8_zero 0 tilesets_zero
     = Some (0,
             tilesets_zero[0 := \<lparr>ts_file = ''a.b.png'', ts_name = ''a.b'', ts_size_define = [],
                                 ts_data = Some (replicate 64 0), ts_size = 2\<rparr>],
             [Printf ''File %s\<newline>'' [S ''./a.b.png'']])
   \<and> ts_name (tilesets_zero[0 := \<lparr>ts_file = ''a.b.png'', ts_name = ''a.b'', ts_size_define = [],
                                 ts_data = Some (replicate 64 0), ts_size = 2\<rparr>] ! unat (0 :: u32))
       = ''a.b''
   \<and> tileset_read ''.'' ''README'' png_16x8_zero 0 tilesets_zero
     = Some (0,
             tilesets_zero[0 := \<lparr>ts_file = ''README'', ts_name = ''README'', ts_size_define = [],
                                 ts_data = Some (replicate 64 0), ts_size = 2\<rparr>],
             [Printf ''File %s\<newline>'' [S ''./README'']])"
proof -
  let ?ts = "tilesets_zero[0 := \<lparr>ts_file = ''a.b.png'', ts_name = ''a.b'', ts_size_define = [],
                                 ts_data = Some (replicate 64 0), ts_size = 2\<rparr>]"
  have 1: "tileset_read ''.'' ''a.b.png'' png_16x8_zero 0 tilesets_zero
     = Some (0, ?ts, [Printf ''File %s\<newline>'' [S ''./a.b.png'']])"
    by code_simp
  have 3: "tileset_read ''.'' ''README'' png_16x8_zero 0 tilesets_zero
     = Some (0,
             tilesets_zero[0 := \<lparr>ts_file = ''README'', ts_name = ''README'', ts_size_define = [],
                                 ts_data = Some (replicate 64 0), ts_size = 2\<rparr>],
             [Printf ''File %s\<newline>'' [S ''./README'']])"
    by code_simp
  from tileset_name_strips_last_suffix[OF 1]
  have "\<forall>base ext. ''a.b.png'' = base @ ''.'' @ ext \<and> CHR ''.'' \<notin> set ext
            \<longrightarrow> ts_name (?ts ! unat (0 :: u32)) = base" by blast
  then have "''a.b.png'' = ''a.b'' @ ''.'' @ ''png'' \<and> CHR ''.'' \<notin> set ''png''
            \<longrightarrow> ts_name (?ts ! unat (0 :: u32)) = ''a.b''" by blast
  then have 2: "ts_name (?ts ! unat (0 :: u32)) = ''a.b''" by simp
  from 1 2 3 show ?thesis by blast
qed

section \<open>Claims on the capacity of the catalog\<close>

lemma read_files_append:
  "read_files path (xs @ ys) idx ts out =
     (case read_files path xs idx ts out of
        Some (Inr (idx', ts', out')) \<Rightarrow> read_files path ys idx' ts' out'
      | r \<Rightarrow> r)"
  by (induction xs arbitrary: idx ts out) (auto split: option.splits sum.splits)

lemma read_files_overflow:
  assumes "\<forall>e \<in> set entries. d_type e = DT_REG \<longrightarrow> read_status path e \<noteq> None"
    and "unat idx \<le> 512" and "length ts = 512"
    and "512 < unat idx + length (filter (processable path) entries)"
  shows "\<exists>printed. read_files path entries idx ts out
            = Some (Inl (out @ printed @ [Fprintf_stderr error_capacity [D MAX_TILESETS]]))
          \<and> (\<forall>e \<in> set printed. \<not> writes_file e)"
  using assms
proof (induction entries arbitrary: idx ts out)
  case Nil
  then show ?case by simp
next
  case (Cons e es)
  show ?case
  proof (cases "MAX_TILESETS \<le> idx")
    case True
    then show ?thesis by simp
  next
    case False
    then have lt: "unat idx < 512" by (simp add: MAX_TILESETS_def word_le_nat_alt)
    have idx1: "unat (idx + 1) = Suc (unat idx)"
      using False by (intro unat_inc[of idx MAX_TILESETS]) simp
    show ?thesis
    proof (cases "d_type e = DT_REG")
      case reg: True
      with Cons.prems(1) have "read_status path e \<noteq> None" by simp
      moreover have "map_option fst (tileset_read path (d_name e) (d_file e) idx ts) = read_status path e"
        unfolding read_status_def using lt Cons.prems(3) by (intro tileset_read_status) simp
      ultimately obtain rc ts' pr where r: "tileset_read path (d_name e) (d_file e) idx ts = Some (rc, ts', pr)"
        and st: "read_status path e = Some rc" by (cases "tileset_read path (d_name e) (d_file e) idx ts") auto
      have len: "length ts' = 512" using tileset_read_length[OF r] Cons.prems(3) by simp
      have nw: "\<forall>e \<in> set pr. \<not> writes_file e" by (rule tileset_read_writes_no_file[OF r])
      show ?thesis
      proof (cases "rc = 0")
        case True
        let ?line = "Printf (CHR 0x09 # ''Png file to tiles: %s -> %s\<newline>'')
                     [S (d_name e), S (ts_name (ts' ! unat idx))]"
        have "processable path e" using True st reg by (simp add: processable_def)
        then have "512 < unat (idx + 1) + length (filter (processable path) es)"
          using Cons.prems(4) idx1 by simp
        moreover have "unat (idx + 1) \<le> 512" using lt idx1 by simp
        moreover have "\<forall>e \<in> set es. d_type e = DT_REG \<longrightarrow> read_status path e \<noteq> None"
          using Cons.prems(1) by simp
        ultimately obtain printed where
          "read_files path es (idx + 1) ts' (out @ pr @ [?line])
             = Some (Inl ((out @ pr @ [?line]) @ printed @ [Fprintf_stderr error_capacity [D MAX_TILESETS]]))"
          and "\<forall>e \<in> set printed. \<not> writes_file e"
          using Cons.IH[of "idx + 1" ts' "out @ pr @ [?line]"] len by blast
        then show ?thesis using False reg r True nw
          by (intro exI[of _ "pr @ [?line] @ printed"]) auto
      next
        case False
        have "\<not> processable path e" using False st by (simp add: processable_def)
        then have "512 < unat idx + length (filter (processable path) es)"
          using Cons.prems(4) by simp
        moreover have "\<forall>e \<in> set es. d_type e = DT_REG \<longrightarrow> read_status path e \<noteq> None"
          using Cons.prems(1) by simp
        ultimately obtain printed where
          "read_files path es idx ts' (out @ pr)
             = Some (Inl ((out @ pr) @ printed @ [Fprintf_stderr error_capacity [D MAX_TILESETS]]))"
          and "\<forall>e \<in> set printed. \<not> writes_file e"
          using Cons.IH[of idx ts' "out @ pr"] len Cons.prems(2) by blast
        then show ?thesis using \<open>\<not> MAX_TILESETS \<le> idx\<close> reg r False nw
          by (intro exI[of _ "pr @ printed"]) auto
      qed
    next
      case nreg: False
      have "\<not> processable path e" using nreg by (simp add: processable_def)
      then have "512 < unat idx + length (filter (processable path) es)"
        using Cons.prems(4) by simp
      moreover have "\<forall>e \<in> set es. d_type e = DT_REG \<longrightarrow> read_status path e \<noteq> None"
        using Cons.prems(1) by simp
      ultimately show ?thesis
        using Cons.IH[of idx ts out] Cons.prems(2,3) False nreg by simp
    qed
  qed
qed

lemma read_files_replicate:
  assumes p: "processable path e" and "unat idx + n \<le> 512" and "length ts = 512"
  shows "\<exists>ts' printed. read_files path (replicate n e) idx ts out
            = Some (Inr (idx + of_nat n, ts', printed)) \<and> length ts' = 512"
  using assms(2,3)
proof (induction n arbitrary: idx ts out)
  case 0
  then show ?case by simp
next
  case (Suc n)
  from Suc.prems have lt: "unat idx < 512" by simp
  then have nfull: "\<not> MAX_TILESETS \<le> idx" by (simp add: MAX_TILESETS_def word_le_nat_alt)
  have idx1: "unat (idx + 1) = Suc (unat idx)"
    using nfull by (intro unat_inc[of idx MAX_TILESETS]) simp
  from p have reg: "d_type e = DT_REG" and st: "read_status path e = Some 0"
    by (simp_all add: processable_def)
  have "map_option fst (tileset_read path (d_name e) (d_file e) idx ts) = read_status path e"
    unfolding read_status_def using lt Suc.prems(2) by (intro tileset_read_status) simp
  with st obtain ts' pr where r: "tileset_read path (d_name e) (d_file e) idx ts = Some (0, ts', pr)"
    by (cases "tileset_read path (d_name e) (d_file e) idx ts") auto
  have len: "length ts' = 512" using tileset_read_length[OF r] Suc.prems(2) by simp
  let ?line = "Printf (CHR 0x09 # ''Png file to tiles: %s -> %s\<newline>'')
                     [S (d_name e), S (ts_name (ts' ! unat idx))]"
  have "unat (idx + 1) + n \<le> 512" using Suc.prems(1) idx1 by simp
  from Suc.IH[OF this len, of "out @ pr @ [?line]"]
  obtain ts'' printed where "read_files path (replicate n e) (idx + 1) ts' (out @ pr @ [?line])
            = Some (Inr (idx + 1 + of_nat n, ts'', printed))" and "length ts'' = 512" by blast
  then show ?case using nfull reg r by (simp add: add.assoc add.commute)
qed

lemma tile_png_processable: "processable ''.'' tile_png"
  unfolding processable_def read_status_def by code_simp

lemma rgb_png_rejected: "read_status ''.'' rgb_png = Some 1"
  unfolding read_status_def by code_simp

text \<open>
  Claim C7. For every batch (the entries of the source directory, each regular file of
  which is read inside defined behaviour) with more than 512 processable images, the run
  ends with \<^verbatim>\<open>EXIT_FAILURE\<close>, its last event is the capacity diagnostic on
  \<^verbatim>\<open>stderr\<close>, and no output file has been opened or written (the run has not reached
  \<^verbatim>\<open>build_header_file\<close> and \<^verbatim>\<open>build_source_file\<close>). And a rejection never ends the
  run: when the catalog is not full and \<^verbatim>\<open>tileset_read\<close> returns a nonzero code for a
  regular file, the scan goes on with the next entry, the catalog and its index unchanged.
\<close>

theorem capacity_overflow_aborts_before_output:
  assumes defined: "\<forall>e \<in> set entries. d_type e = DT_REG \<longrightarrow> read_status (src_path params) e \<noteq> None"
    and many: "unat MAX_TILESETS < length (filter (processable (src_path params)) entries)"
  shows "(\<exists>out. main fopen params (Some entries) file = Some (EXIT_FAILURE, out)
            \<and> last out = Fprintf_stderr error_capacity [D MAX_TILESETS]
            \<and> (\<forall>e \<in> set out. \<not> writes_file e))
       \<and> (\<forall>path e rest tileset_index tilesets out error tilesets' printed.
            tileset_index < MAX_TILESETS \<and> d_type e = DT_REG
            \<and> tileset_read path (d_name e) (d_file e) tileset_index tilesets
                = Some (error, tilesets', printed)
            \<and> error \<noteq> 0
            \<longrightarrow> read_files path (e # rest) tileset_index tilesets out
                  = read_files path rest tileset_index tilesets (out @ printed))"
proof -
  let ?out0 = "[Printf version_text [], Printf ''\<newline>Reading files...\<newline>'' []]"
  have "512 < unat (0 :: u32) + length (filter (processable (src_path params)) entries)"
    using many by (simp add: MAX_TILESETS_def)
  with defined obtain printed where
    r: "read_files (src_path params) entries 0 tilesets_zero ?out0
            = Some (Inl (?out0 @ printed @ [Fprintf_stderr error_capacity [D MAX_TILESETS]]))"
    and nw: "\<forall>e \<in> set printed. \<not> writes_file e"
    using read_files_overflow[of entries "src_path params" 0 tilesets_zero ?out0]
    by (auto simp: tilesets_zero_def MAX_TILESETS_def)
  have 1: "\<exists>out. main fopen params (Some entries) file = Some (EXIT_FAILURE, out)
            \<and> last out = Fprintf_stderr error_capacity [D MAX_TILESETS]
            \<and> (\<forall>e \<in> set out. \<not> writes_file e)"
    using nw by (simp add: main_def r)
  have 2: "read_files path (e # rest) tileset_index tilesets out
                  = read_files path rest tileset_index tilesets (out @ printed)"
    if "tileset_index < MAX_TILESETS" "d_type e = DT_REG"
      "tileset_read path (d_name e) (d_file e) tileset_index tilesets = Some (error, tilesets', printed)"
      "error \<noteq> 0"
    for path e rest tileset_index tilesets out error tilesets' printed
  proof -
    from that(1) have "\<not> MAX_TILESETS \<le> tileset_index" by simp
    then show ?thesis using that tileset_read_rejected[OF that(3,4)] by simp
  qed
  from 1 2 show ?thesis by blast
qed

text \<open>
  Witness for C7: one rejected image followed by 513 images of one tile each.
\<close>

theorem capacity_overflow_aborts_before_output_witness:
  "unat MAX_TILESETS < length (filter (processable (src_path params_default))
      (rgb_png # replicate 513 tile_png))
   \<and> read_status (src_path params_default) rgb_png = Some 1
   \<and> read_status (src_path params_default) tile_png = Some 0
   \<and> (\<exists>out. main fopen_succeeds params_default (Some (rgb_png # replicate 513 tile_png))
          png_rgb_65x64
          = Some (EXIT_FAILURE, out)
        \<and> last out = Fprintf_stderr error_capacity [D MAX_TILESETS]
        \<and> filter writes_file out = [])"
proof -
  have p: "src_path params_default = ''.''" by (simp add: params_default_def)
  have t: "processable ''.'' tile_png" by (rule tile_png_processable)
  then have t0: "read_status ''.'' tile_png = Some 0" by (simp add: processable_def)
  have r: "\<not> processable ''.'' rgb_png" using rgb_png_rejected by (simp add: processable_def)
  have 1: "\<forall>e \<in> set (rgb_png # replicate 513 tile_png).
      d_type e = DT_REG \<longrightarrow> read_status (src_path params_default) e \<noteq> None"
    using t0 rgb_png_rejected by (simp add: p)
  have 2: "unat MAX_TILESETS < length (filter (processable (src_path params_default))
      (rgb_png # replicate 513 tile_png))"
    using t r by (simp add: p MAX_TILESETS_def)
  note c7 = capacity_overflow_aborts_before_output[OF 1 2, of fopen_succeeds png_rgb_65x64]
  from c7 obtain out where "main fopen_succeeds params_default
          (Some (rgb_png # replicate 513 tile_png)) png_rgb_65x64
          = Some (EXIT_FAILURE, out)"
    and "last out = Fprintf_stderr error_capacity [D MAX_TILESETS]"
    and "\<forall>e \<in> set out. \<not> writes_file e" by blast
  then have 3: "\<exists>out. main fopen_succeeds params_default
          (Some (rgb_png # replicate 513 tile_png)) png_rgb_65x64
          = Some (EXIT_FAILURE, out)
        \<and> last out = Fprintf_stderr error_capacity [D MAX_TILESETS]
        \<and> filter writes_file out = []"
    by (auto simp: filter_empty_conv)
  from 2 t0 rgb_png_rejected 3 show ?thesis by (simp add: p)
qed

text \<open>
  Claim C10. When the catalog holds 512 tilesets (\<^verbatim>\<open>tileset_index >= MAX_TILESETS\<close>),
  the scan ends the run with the capacity error at the next directory entry, whatever the
  entry is: the test comes before the entry's type is looked at and before the file is
  read. So does the whole run, when the entries before that one have filled the catalog.
\<close>

theorem capacity_check_precedes_file_test:
  assumes full: "MAX_TILESETS \<le> tileset_index"
  shows "read_files path (dir_entry # rest) tileset_index tilesets out
           = Some (Inl (out @ [Fprintf_stderr error_capacity [D MAX_TILESETS]]))
       \<and> (\<forall>fopen params before file ts printed.
            read_files (src_path params) before 0 tilesets_zero
               [Printf version_text [], Printf ''\<newline>Reading files...\<newline>'' []]
              = Some (Inr (tileset_index, ts, printed))
            \<longrightarrow> main fopen params (Some (before @ dir_entry # rest)) file
                  = Some (EXIT_FAILURE, printed @ [Fprintf_stderr error_capacity [D MAX_TILESETS]]))"
  using full by (simp add: main_def read_files_append)

text \<open>
  Witness for C10: with 512 tilesets in the catalog a subdirectory ends the run, and so
  does a file that validation would reject; a directory of 512 one-tile images followed
  by a subdirectory ends with \<^verbatim>\<open>EXIT_FAILURE\<close>.
\<close>

theorem capacity_check_precedes_file_test_witness:
  "MAX_TILESETS \<le> (512 :: u32)
   \<and> d_type subdir \<noteq> DT_REG \<and> read_status ''.'' rgb_png = Some 1
   \<and> read_files ''.'' [subdir] 512 tilesets_zero []
        = Some (Inl [Fprintf_stderr error_capacity [D MAX_TILESETS]])
   \<and> read_files ''.'' [rgb_png] 512 tilesets_zero []
        = Some (Inl [Fprintf_stderr error_capacity [D MAX_TILESETS]])
   \<and> (\<exists>printed. main fopen_succeeds params_default
           (Some (replicate 512 tile_png @ [subdir])) png_rgb_65x64
        = Some (EXIT_FAILURE, printed @ [Fprintf_stderr error_capacity [D MAX_TILESETS]]))"
proof -
  let ?out0 = "[Printf version_text [], Printf ''\<newline>Reading files...\<newline>'' []]"
  have 1: "MAX_TILESETS \<le> (512 :: u32)" by (simp add: MAX_TILESETS_def)
  have 2: "d_type subdir \<noteq> DT_REG" by (simp add: subdir_def)
  from capacity_check_precedes_file_test[OF 1, of "''.''" subdir "[]" tilesets_zero "[]"]
  have 3: "read_files ''.'' [subdir] 512 tilesets_zero []
        = Some (Inl [Fprintf_stderr error_capacity [D MAX_TILESETS]])"
    and m: "\<forall>fopen params before file ts printed.
            read_files (src_path params) before 0 tilesets_zero ?out0
              = Some (Inr (512, ts, printed))
            \<longrightarrow> main fopen params (Some (before @ [subdir])) file
                  = Some (EXIT_FAILURE, printed @ [Fprintf_stderr error_capacity [D MAX_TILESETS]])"
    by simp_all
  from capacity_check_precedes_file_test[OF 1, of "''.''" rgb_png "[]" tilesets_zero "[]"]
  have 4: "read_files ''.'' [rgb_png] 512 tilesets_zero []
        = Some (Inl [Fprintf_stderr error_capacity [D MAX_TILESETS]])"
    by simp
  have "\<exists>ts' printed. read_files ''.'' (replicate 512 tile_png) 0 tilesets_zero ?out0
            = Some (Inr (0 + of_nat 512, ts', printed)) \<and> length ts' = 512"
    by (rule read_files_replicate[OF tile_png_processable])
      (simp_all add: tilesets_zero_def MAX_TILESETS_def)
  then obtain ts' printed where "read_files (src_path params_default) (replicate 512 tile_png) 0
      tilesets_zero ?out0 = Some (Inr (512, ts', printed))"
    by (auto simp: params_default_def)
  with m have "main fopen_succeeds params_default
        (Some (replicate 512 tile_png @ [subdir])) png_rgb_65x64
        = Some (EXIT_FAILURE, printed @ [Fprintf_stderr error_capacity [D MAX_TILESETS]])"
    by blast
  with 1 2 3 4 rgb_png_rejected show ?thesis by blast
qed

end
